theory Spec2Isabelle
  imports Complex_Main "HOL-Library.List_Lexorder" "HOL-Library.Char_ord"
begin

section \<open>Python values used by the route planner\<close>

text \<open>
  The development embeds \<^verbatim>\<open>mapUtil.py\<close> and \<^verbatim>\<open>submission.py\<close> of the path-planning
  assignment. Python floats (coordinates, distances, costs) are modelled as reals: the
  arithmetic is exact and rounding is not modelled. Python strings are \<open>string\<close>, ordered
  lexicographically by character code as Python orders them. An exception is a value of
  type \<open>error\<close>, and a function that can raise returns \<open>error + 'a\<close> with \<open>Inl\<close> the
  exception.
\<close>

datatype error =
    KeyError
  | AssertionError
  | ValueError
  | TypeError
  | AttributeError
  | IndexError
  | Exception string

text \<open>
  A Python \<^verbatim>\<open>dict\<close> keeps its keys in insertion order and the code iterates over
  dictionaries, so a dictionary is an association list: assigning to a key that is present
  replaces the value where it stands, assigning to a new key appends it. The keys of a
  dictionary are unique and \<open>dict_set\<close> keeps them so; a loop over the keys that reads
  \<^verbatim>\<open>d[k]\<close> for each of them is a loop over the entries.
\<close>

type_synonym ('k, 'v) dict = "('k \<times> 'v) list"

fun dict_set :: "('k, 'v) dict \<Rightarrow> 'k \<Rightarrow> 'v \<Rightarrow> ('k, 'v) dict" where
  "dict_set [] k v = [(k, v)]"
| "dict_set ((k', v') # d) k v = (if k' = k then (k, v) # d else (k', v') # dict_set d k v)"

definition dict_keys :: "('k, 'v) dict \<Rightarrow> 'k list" where
  "dict_keys d = map fst d"

text \<open>\<^verbatim>\<open>d[k]\<close> on a plain \<^verbatim>\<open>dict\<close>: a missing key raises \<^verbatim>\<open>KeyError\<close>.\<close>

definition dict_get :: "('k, 'v) dict \<Rightarrow> 'k \<Rightarrow> error + 'v" where
  "dict_get d k = (case map_of d k of None \<Rightarrow> Inl KeyError | Some v \<Rightarrow> Inr v)"

text \<open>
  \<^verbatim>\<open>d[k]\<close> on a \<^verbatim>\<open>defaultdict(list)\<close> or \<^verbatim>\<open>defaultdict(dict)\<close>: a missing key yields
  the empty container. Python also stores that empty container under the key. The
  lookups of the model go through \<open>defaultdict_get\<close>, which reads a missing key and an
  empty entry alike, and an empty tag list holds no tag for the loops over all tag lists,
  so the stored empty entry is left out of the model.
\<close>

definition defaultdict_get :: "('k, 'v list) dict \<Rightarrow> 'k \<Rightarrow> 'v list" where
  "defaultdict_get d k = (case map_of d k of None \<Rightarrow> [] | Some v \<Rightarrow> v)"

section \<open>The graph model (mapUtil.py)\<close>

record GeoLocation =
  latitude :: real
  longitude :: real

record CityMap =
  geoLocations :: "(string, GeoLocation) dict"
  tags :: "(string, string list) dict"
  distances :: "(string, (string \<times> real) list) dict"

definition CityMap_init :: CityMap where
  "CityMap_init = \<lparr>geoLocations = [], tags = [], distances = []\<rparr>"

definition makeTag :: "string \<Rightarrow> string \<Rightarrow> string" where
  "makeTag key val = key @ ''='' @ val"

definition RADIUS_EARTH :: real where
  "RADIUS_EARTH = 6371000"

definition radians :: "real \<Rightarrow> real" where
  "radians x = x * pi / 180"

definition computeDistance :: "GeoLocation \<Rightarrow> GeoLocation \<Rightarrow> real" where
  "computeDistance geo1 geo2 =
     (let lon1 = radians (longitude geo1); lat1 = radians (latitude geo1);
          lon2 = radians (longitude geo2); lat2 = radians (latitude geo2);
          deltaLon = lon2 - lon1; deltaLat = lat2 - lat1;
          haversine = (sin (deltaLat / 2))\<^sup>2 + (cos lat1 * cos lat2) * (sin (deltaLon / 2))\<^sup>2
      in 2 * RADIUS_EARTH * arcsin (sqrt haversine))"

definition addLocation :: "CityMap \<Rightarrow> string \<Rightarrow> GeoLocation \<Rightarrow> string list \<Rightarrow> error + CityMap" where
  "addLocation cm label loc ts =
     (if label \<in> set (dict_keys (geoLocations cm)) then Inl AssertionError
      else Inr (cm\<lparr>geoLocations := dict_set (geoLocations cm) label loc,
                    tags := dict_set (tags cm) label (makeTag ''label'' label # ts)\<rparr>))"

text \<open>
  \<^verbatim>\<open>addConnection\<close>: when the distance is omitted it is computed from the two stored
  locations, \<^verbatim>\<open>geoLocations[source]\<close> first, and an unknown label raises before anything
  is written. Then both directions are written, \<^verbatim>\<open>distances[source][target]\<close> first.
\<close>

definition set_distance :: "('k, ('k \<times> 'c) list) dict \<Rightarrow> 'k \<Rightarrow> 'k \<Rightarrow> 'c
    \<Rightarrow> ('k, ('k \<times> 'c) list) dict" where
  "set_distance d a b c = dict_set d a (dict_set (defaultdict_get d a) b c)"

definition addConnection :: "CityMap \<Rightarrow> string \<Rightarrow> string \<Rightarrow> real option \<Rightarrow> error + CityMap" where
  "addConnection cm source target distance =
     (case (case distance of
              Some c \<Rightarrow> Inr c
            | None \<Rightarrow>
                (case dict_get (geoLocations cm) source of
                   Inl e \<Rightarrow> Inl e
                 | Inr g1 \<Rightarrow>
                     (case dict_get (geoLocations cm) target of
                        Inl e \<Rightarrow> Inl e
                      | Inr g2 \<Rightarrow> Inr (computeDistance g1 g2)))) of
        Inl e \<Rightarrow> Inl e
      | Inr c \<Rightarrow>
          Inr (cm\<lparr>distances := set_distance (set_distance (distances cm) source target c)
                                   target source c\<rparr>))"

text \<open>
  A map is built by a sequence of calls. A call that raises leaves the map as it was
  (both operations raise before their first write), so the map after the sequence is the
  fold of the successful calls.
\<close>

datatype call =
    AddLocation string GeoLocation "string list"
  | AddConnection string string "real option"

fun apply_call :: "CityMap \<Rightarrow> call \<Rightarrow> error + CityMap" where
  "apply_call cm (AddLocation label loc ts) = addLocation cm label loc ts"
| "apply_call cm (AddConnection source target distance) = addConnection cm source target distance"

fun build :: "CityMap \<Rightarrow> call list \<Rightarrow> CityMap" where
  "build cm [] = cm"
| "build cm (c # cs) = (case apply_call cm c of Inl e \<Rightarrow> build cm cs | Inr cm' \<Rightarrow> build cm' cs)"

text \<open>\<^verbatim>\<open>distances[a][b]\<close> as a lookup that tells presence: \<open>None\<close> when there is no entry.\<close>

definition distance_entry :: "('k, ('k \<times> 'c) list) dict \<Rightarrow> 'k \<Rightarrow> 'k \<Rightarrow> 'c option" where
  "distance_entry d a b = map_of (defaultdict_get d a) b"

text \<open>
  \<^verbatim>\<open>locationFromTag\<close>: the labels whose tag list holds the tag, sorted; the first one, or
  \<^verbatim>\<open>None\<close> when there is none.
\<close>

definition locationFromTag :: "string \<Rightarrow> CityMap \<Rightarrow> string option" where
  "locationFromTag tag cm =
     (let possibleLocations = sort (map fst (filter (\<lambda>(location, ts). tag \<in> set ts) (tags cm)))
      in if length possibleLocations > 0 then Some (hd possibleLocations) else None)"

text \<open>
  \<^verbatim>\<open>addLandmarks\<close>. Reading and decoding the landmark file is outside the model: a
  landmark entry arrives decoded, its \<^verbatim>\<open>"geo"\<close> string already parsed into a location, its
  optional \<^verbatim>\<open>"landmark"\<close> and \<^verbatim>\<open>"amenity"\<close> keys as options. Python's \<^verbatim>\<open>min\<close> over the
  pairs (distance, label) compares the pairs lexicographically, keeps the first least
  one, and raises \<^verbatim>\<open>ValueError\<close> on an empty sequence.
\<close>

record Landmark =
  geo :: GeoLocation
  landmark :: "string option"
  amenity :: "string option"

definition tuple_less :: "real \<times> string \<Rightarrow> real \<times> string \<Rightarrow> bool" where
  "tuple_less a b = (fst a < fst b \<or> (fst a = fst b \<and> snd a < snd b))"

fun py_min :: "(real \<times> string) list \<Rightarrow> error + (real \<times> string)" where
  "py_min [] = Inl ValueError"
| "py_min (x # xs) = Inr (foldl (\<lambda>best y. if tuple_less y best then y else best) x xs)"

definition append_tag :: "string \<Rightarrow> CityMap \<Rightarrow> string \<times> string option \<Rightarrow> CityMap" where
  "append_tag bestLabel cm kv =
     (case snd kv of
        None \<Rightarrow> cm
      | Some val \<Rightarrow>
          cm\<lparr>tags := dict_set (tags cm) bestLabel
                         (defaultdict_get (tags cm) bestLabel @ [makeTag (fst kv) val])\<rparr>)"

definition addLandmark :: "CityMap \<Rightarrow> real \<Rightarrow> Landmark \<Rightarrow> error + CityMap" where
  "addLandmark cm toleranceMeters item =
     (case py_min (map (\<lambda>(existingLabel, existingGeo).
                          (computeDistance (geo item) existingGeo, existingLabel))
                       (geoLocations cm)) of
        Inl e \<Rightarrow> Inl e
      | Inr (bestDistance, bestLabel) \<Rightarrow>
          Inr (if bestDistance < toleranceMeters
               then foldl (append_tag bestLabel) cm
                      [(''landmark'', landmark item), (''amenity'', amenity item)]
               else cm))"

fun addLandmarks :: "CityMap \<Rightarrow> Landmark list \<Rightarrow> real \<Rightarrow> error + CityMap" where
  "addLandmarks cm [] toleranceMeters = Inr cm"
| "addLandmarks cm (item # landmarks) toleranceMeters =
     (case addLandmark cm toleranceMeters item of
        Inl e \<Rightarrow> Inl e
      | Inr cm' \<Rightarrow> addLandmarks cm' landmarks toleranceMeters)"

text \<open>\<^verbatim>\<open>checkValid\<close>, its messages left out. \<^verbatim>\<open>path[0]\<close> raises on an empty path; the
  callers pass the start location followed by the actions of a search.\<close>

fun connected :: "CityMap \<Rightarrow> string list \<Rightarrow> bool" where
  "connected cm (a # b # path) =
     (b \<in> set (dict_keys (defaultdict_get (distances cm) a)) \<and> connected cm (b # path))"
| "connected cm path = True"

definition checkValid :: "string list \<Rightarrow> CityMap \<Rightarrow> string \<Rightarrow> string \<Rightarrow> string list \<Rightarrow> error + bool" where
  "checkValid path cm startLocation endTag waypointTags =
     (if path = [] then Inl IndexError
      else if hd path \<noteq> startLocation then Inr False
      else if endTag \<notin> set (defaultdict_get (tags cm) (last path)) then Inr False
      else if \<not> connected cm path then Inr False
      else if \<not> set waypointTags \<subseteq> (\<Union>location \<in> set path. set (defaultdict_get (tags cm) location))
      then Inr False
      else Inr True)"

section \<open>Search problems (submission.py)\<close>

text \<open>
  Modelled from the spec: \<^verbatim>\<open>util.py\<close>, which declares \<^verbatim>\<open>State\<close>, \<^verbatim>\<open>SearchProblem\<close> and
  \<^verbatim>\<open>Heuristic\<close>, is not among the sources. By the spec's data model a state is a location
  label and an optional memory (the waypoint problem stores a tuple of tag strings there,
  every other state has \<^verbatim>\<open>memory=None\<close>), a search problem is its three operations, and a
  heuristic is its \<^verbatim>\<open>evaluate\<close>. \<open>problem_cityMap\<close> is the \<^verbatim>\<open>cityMap\<close> attribute, which the
  two problems of the submission have and the interface does not promise.
\<close>

record State =
  location :: string
  memory :: "string list option"

record SearchProblem =
  startState :: State
  isEnd :: "State \<Rightarrow> error + bool"
  successorsAndCosts :: "State \<Rightarrow> error + (string \<times> State \<times> real) list"
  problem_cityMap :: "CityMap option"

record Heuristic =
  evaluate :: "State \<Rightarrow> error + real"

text \<open>A loop that appends one result per element and stops at the first exception.\<close>

fun collect :: "('a \<Rightarrow> error + 'b) \<Rightarrow> 'a list \<Rightarrow> error + 'b list" where
  "collect f [] = Inr []"
| "collect f (x # xs) =
     (case f x of
        Inl e \<Rightarrow> Inl e
      | Inr y \<Rightarrow> (case collect f xs of Inl e \<Rightarrow> Inl e | Inr ys \<Rightarrow> Inr (y # ys)))"

subsection \<open>ShortestPathProblem\<close>

record ShortestPathProblem =
  startLocation :: string
  endTag :: string
  cityMap :: CityMap

definition ShortestPathProblem_startState :: "'a ShortestPathProblem_scheme \<Rightarrow> State" where
  "ShortestPathProblem_startState p = \<lparr>location = startLocation p, memory = None\<rparr>"

definition ShortestPathProblem_isEnd :: "'a ShortestPathProblem_scheme \<Rightarrow> State \<Rightarrow> bool" where
  "ShortestPathProblem_isEnd p state =
     (endTag p \<in> set (defaultdict_get (tags (cityMap p)) (location state)))"

definition ShortestPathProblem_successorsAndCosts ::
    "'a ShortestPathProblem_scheme \<Rightarrow> State \<Rightarrow> (string \<times> State \<times> real) list" where
  "ShortestPathProblem_successorsAndCosts p state =
     map (\<lambda>(next_location, distance).
            (next_location, \<lparr>location = next_location, memory = None\<rparr>, distance))
         (defaultdict_get (distances (cityMap p)) (location state))"

definition ShortestPathProblem_problem :: "ShortestPathProblem \<Rightarrow> SearchProblem" where
  "ShortestPathProblem_problem p =
     \<lparr>startState = ShortestPathProblem_startState p,
      isEnd = (\<lambda>state. Inr (ShortestPathProblem_isEnd p state)),
      successorsAndCosts = (\<lambda>state. Inr (ShortestPathProblem_successorsAndCosts p state)),
      problem_cityMap = Some (cityMap p)\<rparr>"

subsection \<open>WaypointsShortestPathProblem\<close>

record WaypointsShortestPathProblem = ShortestPathProblem +
  waypointTags :: "string list"

definition WaypointsShortestPathProblem_init ::
    "string \<Rightarrow> string list \<Rightarrow> string \<Rightarrow> CityMap \<Rightarrow> WaypointsShortestPathProblem" where
  "WaypointsShortestPathProblem_init start wps etag cm =
     \<lparr>startLocation = start, endTag = etag, cityMap = cm, waypointTags = sort wps\<rparr>"

definition WaypointsShortestPathProblem_startState :: "WaypointsShortestPathProblem \<Rightarrow> State" where
  "WaypointsShortestPathProblem_startState p =
     \<lparr>location = startLocation p, memory = Some (waypointTags p)\<rparr>"

text \<open>\<^verbatim>\<open>not state.memory\<close> holds for \<^verbatim>\<open>None\<close> and for the empty tuple.\<close>

definition WaypointsShortestPathProblem_isEnd :: "WaypointsShortestPathProblem \<Rightarrow> State \<Rightarrow> bool" where
  "WaypointsShortestPathProblem_isEnd p state =
     (if endTag p \<in> set (defaultdict_get (tags (cityMap p)) (location state))
      then (case memory state of None \<Rightarrow> True | Some m \<Rightarrow> m = [])
      else False)"

text \<open>\<^verbatim>\<open>list.index\<close> (\<^verbatim>\<open>ValueError\<close> when the value is absent) and \<^verbatim>\<open>list.pop\<close>.\<close>

fun list_index :: "'a list \<Rightarrow> 'a \<Rightarrow> error + nat" where
  "list_index [] x = Inl ValueError"
| "list_index (y # ys) x =
     (if y = x then Inr 0 else (case list_index ys x of Inl e \<Rightarrow> Inl e | Inr i \<Rightarrow> Inr (Suc i)))"

definition list_pop :: "'a list \<Rightarrow> nat \<Rightarrow> 'a list" where
  "list_pop xs i = take i xs @ drop (Suc i) xs"

text \<open>
  The inner loop of \<^verbatim>\<open>successorsAndCosts\<close>: for every tag of the state's memory that the
  current location carries, the first occurrence of the tag is popped from the copy.
\<close>

fun pop_satisfied :: "string list \<Rightarrow> string list \<Rightarrow> string list \<Rightarrow> error + string list" where
  "pop_satisfied location_tags [] next_state_memory = Inr next_state_memory"
| "pop_satisfied location_tags (tag # rest) next_state_memory =
     (if tag \<in> set location_tags
      then (case list_index next_state_memory tag of
              Inl e \<Rightarrow> Inl e
            | Inr tag_index \<Rightarrow> pop_satisfied location_tags rest (list_pop next_state_memory tag_index))
      else pop_satisfied location_tags rest next_state_memory)"

definition WaypointsShortestPathProblem_successor ::
    "WaypointsShortestPathProblem \<Rightarrow> State \<Rightarrow> string \<times> real \<Rightarrow> error + (string \<times> State \<times> real)" where
  "WaypointsShortestPathProblem_successor p state nd =
     (case memory state of
        None \<Rightarrow> Inl TypeError
      | Some m \<Rightarrow>
          (case pop_satisfied (defaultdict_get (tags (cityMap p)) (location state)) m m of
             Inl e \<Rightarrow> Inl e
           | Inr next_state_memory \<Rightarrow>
               Inr (fst nd,
                    \<lparr>location = fst nd, memory = Some (sort next_state_memory)\<rparr>,
                    snd nd + real (length next_state_memory) * 50)))"

definition WaypointsShortestPathProblem_successorsAndCosts ::
    "WaypointsShortestPathProblem \<Rightarrow> State \<Rightarrow> error + (string \<times> State \<times> real) list" where
  "WaypointsShortestPathProblem_successorsAndCosts p state =
     collect (WaypointsShortestPathProblem_successor p state)
       (defaultdict_get (distances (cityMap p)) (location state))"

definition WaypointsShortestPathProblem_problem :: "WaypointsShortestPathProblem \<Rightarrow> SearchProblem" where
  "WaypointsShortestPathProblem_problem p =
     \<lparr>startState = WaypointsShortestPathProblem_startState p,
      isEnd = (\<lambda>state. Inr (WaypointsShortestPathProblem_isEnd p state)),
      successorsAndCosts = WaypointsShortestPathProblem_successorsAndCosts p,
      problem_cityMap = Some (cityMap p)\<rparr>"

subsection \<open>The A* reduction\<close>

text \<open>
  The new problem forwards \<^verbatim>\<open>startState\<close> and \<^verbatim>\<open>isEnd\<close>. Its \<^verbatim>\<open>successorsAndCosts\<close>
  reads \<^verbatim>\<open>problem.cityMap.distances\<close> (an \<^verbatim>\<open>AttributeError\<close> for a problem without the
  attribute) and builds each next state as \<^verbatim>\<open>State(location=next_location)\<close>. The new
  problem has no \<^verbatim>\<open>cityMap\<close> attribute of its own.
\<close>

definition aStarReduction_successor :: "Heuristic \<Rightarrow> string \<times> real \<Rightarrow> error + (string \<times> State \<times> real)" where
  "aStarReduction_successor heuristic nd =
     (let new_state = \<lparr>location = fst nd, memory = None\<rparr>; past_cost = snd nd
      in case evaluate heuristic new_state of
           Inl e \<Rightarrow> Inl e
         | Inr future_cost \<Rightarrow> Inr (fst nd, new_state, past_cost + future_cost))"

definition aStarReduction :: "SearchProblem \<Rightarrow> Heuristic \<Rightarrow> SearchProblem" where
  "aStarReduction problem heuristic =
     \<lparr>startState = startState problem,
      isEnd = isEnd problem,
      successorsAndCosts =
        (\<lambda>state. case problem_cityMap problem of
                    None \<Rightarrow> Inl AttributeError
                  | Some cm \<Rightarrow>
                      collect (aStarReduction_successor heuristic)
                        (defaultdict_get (distances cm) (location state))),
      problem_cityMap = None\<rparr>"

subsection \<open>Heuristics\<close>

text \<open>\<^verbatim>\<open>ZeroHeuristic\<close> of the grader: \<^verbatim>\<open>evaluate\<close> returns \<^verbatim>\<open>0.0\<close>.\<close>

definition ZeroHeuristic :: Heuristic where
  "ZeroHeuristic = \<lparr>evaluate = (\<lambda>state. Inr 0)\<rparr>"

record StraightLineHeuristic =
  heuristic_endTag :: string
  heuristic_cityMap :: CityMap
  targets :: "GeoLocation list"

definition StraightLineHeuristic_init :: "string \<Rightarrow> CityMap \<Rightarrow> StraightLineHeuristic" where
  "StraightLineHeuristic_init etag cm =
     \<lparr>heuristic_endTag = etag, heuristic_cityMap = cm,
      targets = map snd (filter (\<lambda>(label, g). etag \<in> set (defaultdict_get (tags cm) label))
                           (geoLocations cm))\<rparr>"

definition StraightLineHeuristic_evaluate :: "StraightLineHeuristic \<Rightarrow> State \<Rightarrow> error + real" where
  "StraightLineHeuristic_evaluate h state =
     (case dict_get (geoLocations (heuristic_cityMap h)) (location state) of
        Inl e \<Rightarrow> Inl e
      | Inr state_geo_location \<Rightarrow>
          Inr (foldl (\<lambda>shortest_target_distance target.
                        if computeDistance target state_geo_location < shortest_target_distance
                        then computeDistance target state_geo_location
                        else shortest_target_distance)
                 10000000 (targets h)))"

text \<open>\<^verbatim>\<open>NoWaypointsHeuristic.evaluate\<close> is the single statement
  \<^verbatim>\<open>raise Exception("Not implemented yet")\<close>, whatever the heuristic object holds.\<close>

definition NoWaypointsHeuristic_evaluate :: "'h \<Rightarrow> State \<Rightarrow> error + real" where
  "NoWaypointsHeuristic_evaluate h state = Inl (Exception ''Not implemented yet'')"

section \<open>The search engine\<close>

text \<open>
  Modelled from the spec: \<^verbatim>\<open>UniformCostSearch\<close> of \<^verbatim>\<open>util.py\<close> is not among the sources.
  The engine follows the spec's state machine. The frontier maps each unexplored state
  that was reached to its best known cost; extraction takes the first entry of least
  cost (the contract leaves ties open). A goal state ends the search with its cost and
  the actions found by following the predecessor links back to the start state. Any
  other state is marked explored and each unexplored successor is inserted, or updated
  when the new cost is strictly lower. An empty frontier ends the search without a path.
  The costs of the extracted states are exposed as \<open>pastCosts\<close>. An exception of the
  problem's operations ends the search with that exception. The loop has fuel: \<open>None\<close>
  is a search that has not ended within it.
\<close>

record SearchResult =
  actions :: "string list"
  pathCost :: "real option"
  pastCosts :: "(State, real) dict"

fun least_entry :: "('s \<times> real) list \<Rightarrow> ('s \<times> real) option" where
  "least_entry [] = None"
| "least_entry (e # es) =
     (case least_entry es of
        None \<Rightarrow> Some e
      | Some m \<Rightarrow> if snd m < snd e then Some m else Some e)"

definition relax :: "State list \<Rightarrow> State \<Rightarrow> real
    \<Rightarrow> (State, real) dict \<times> (State, string \<times> State) dict \<Rightarrow> string \<times> State \<times> real
    \<Rightarrow> (State, real) dict \<times> (State, string \<times> State) dict" where
  "relax explored state pastCost fb succ =
     (let action = fst succ; newState = fst (snd succ); cost = snd (snd succ);
          frontier = fst fb; backpointers = snd fb
      in if newState \<in> set explored then fb
         else (case map_of frontier newState of
                 None \<Rightarrow>
                   (dict_set frontier newState (pastCost + cost),
                    dict_set backpointers newState (action, state))
               | Some recorded \<Rightarrow>
                   if pastCost + cost < recorded
                   then (dict_set frontier newState (pastCost + cost),
                         dict_set backpointers newState (action, state))
                   else fb))"

text \<open>
  Following the predecessor links from a state back to the start state, collecting the
  actions. A state without a link is a failed lookup; the walk has fuel.
\<close>

fun follow_links :: "nat \<Rightarrow> (State, string \<times> State) dict \<Rightarrow> State \<Rightarrow> State \<Rightarrow> string list
    \<Rightarrow> (error + string list) option" where
  "follow_links n backpointers start state acts =
     (if state = start then Some (Inr acts)
      else (case map_of backpointers state of
              None \<Rightarrow> Some (Inl KeyError)
            | Some link \<Rightarrow>
                (case n of
                   0 \<Rightarrow> None
                 | Suc m \<Rightarrow> follow_links m backpointers start (snd link) (fst link # acts))))"

fun ucs_loop :: "nat \<Rightarrow> State \<Rightarrow> (State \<Rightarrow> error + bool)
    \<Rightarrow> (State \<Rightarrow> error + (string \<times> State \<times> real) list)
    \<Rightarrow> (State, real) dict \<Rightarrow> State list \<Rightarrow> (State, string \<times> State) dict \<Rightarrow> (State, real) dict
    \<Rightarrow> (error + SearchResult) option" where
  "ucs_loop 0 start goal succs frontier explored backpointers costs = None"
| "ucs_loop (Suc n) start goal succs frontier explored backpointers costs =
     (case least_entry frontier of
        None \<Rightarrow> Some (Inr \<lparr>actions = [], pathCost = None, pastCosts = costs\<rparr>)
      | Some (state, pastCost) \<Rightarrow>
          (case goal state of
             Inl e \<Rightarrow> Some (Inl e)
           | Inr True \<Rightarrow>
               (case follow_links (length explored) backpointers start state [] of
                  None \<Rightarrow> None
                | Some (Inl e) \<Rightarrow> Some (Inl e)
                | Some (Inr acts) \<Rightarrow>
                    Some (Inr \<lparr>actions = acts, pathCost = Some pastCost,
                               pastCosts = dict_set costs state pastCost\<rparr>))
           | Inr False \<Rightarrow>
               (case succs state of
                  Inl e \<Rightarrow> Some (Inl e)
                | Inr successors \<Rightarrow>
                    (let fb = foldl (relax (state # explored) state pastCost)
                                (filter (\<lambda>entry. fst entry \<noteq> state) frontier, backpointers)
                                successors
                     in ucs_loop n start goal succs (fst fb) (state # explored) (snd fb)
                          (dict_set costs state pastCost)))))"

definition UniformCostSearch_solve :: "nat \<Rightarrow> SearchProblem \<Rightarrow> (error + SearchResult) option" where
  "UniformCostSearch_solve fuel problem =
     ucs_loop fuel (startState problem) (isEnd problem) (successorsAndCosts problem)
       [(startState problem, 0)] [] [] []"

text \<open>Fuel that suffices for a shortest-path search on a map: two more than the number of
  entries of the distances mapping.\<close>

definition search_bound :: "CityMap \<Rightarrow> nat" where
  "search_bound cm = length (concat (map snd (distances cm))) + 2"

section \<open>Notions the properties are stated with\<close>

text \<open>The labels whose tag list holds a tag.\<close>

definition locations_with_tag :: "string \<Rightarrow> CityMap \<Rightarrow> string set" where
  "locations_with_tag tag cm = fst ` {p \<in> set (tags cm). tag \<in> set (snd p)}"

text \<open>
  A grid of one row and two cells, as \<^verbatim>\<open>createGridMap(1, 2)\<close> builds it: two locations and
  one connection of distance 1.
\<close>

definition grid_geo :: "real \<Rightarrow> real \<Rightarrow> GeoLocation" where
  "grid_geo lat lon = \<lparr>latitude = lat, longitude = lon\<rparr>"

definition grid_1x2_calls :: "call list" where
  "grid_1x2_calls =
     [AddLocation ''0,0'' (grid_geo 0 0) [''x=0'', ''y=0''],
      AddLocation ''0,1'' (grid_geo 0 (1 / 100000)) [''x=0'', ''y=1''],
      AddConnection ''0,0'' ''0,1'' (Some 1)]"

definition grid_1x2 :: CityMap where
  "grid_1x2 = build CityMap_init grid_1x2_calls"

text \<open>Every label that occurs as an outer key or as an inner key of the distances mapping.\<close>

definition distance_labels :: "('k, ('k \<times> 'c) list) dict \<Rightarrow> 'k set" where
  "distance_labels d = set (dict_keys d) \<union> (\<Union>p \<in> set d. set (dict_keys (snd p)))"

text \<open>
  A sequence of calls in which every \<^verbatim>\<open>addConnection\<close> with an explicit cost names two
  labels that are keys of \<^verbatim>\<open>geoLocations\<close> when it is called.
\<close>

fun endpoints_known :: "CityMap \<Rightarrow> call list \<Rightarrow> bool" where
  "endpoints_known cm [] = True"
| "endpoints_known cm (c # cs) =
     ((case c of
         AddConnection source target (Some d) \<Rightarrow>
           source \<in> set (dict_keys (geoLocations cm)) \<and> target \<in> set (dict_keys (geoLocations cm))
       | _ \<Rightarrow> True)
      \<and> endpoints_known (case apply_call cm c of Inl e \<Rightarrow> cm | Inr cm' \<Rightarrow> cm') cs)"

text \<open>The tags of a memory that the location \<open>L\<close> does not carry, in the memory's order.\<close>

definition remaining_tags :: "CityMap \<Rightarrow> string \<Rightarrow> string list \<Rightarrow> string list" where
  "remaining_tags cm L m = filter (\<lambda>tag. tag \<notin> set (defaultdict_get (tags cm) L)) m"

text \<open>The tags a landmark entry contributes: its \<^verbatim>\<open>landmark\<close> tag, then its \<^verbatim>\<open>amenity\<close> tag.\<close>

definition landmark_tags :: "Landmark \<Rightarrow> string list" where
  "landmark_tags item =
     (case landmark item of None \<Rightarrow> [] | Some v \<Rightarrow> [makeTag ''landmark'' v]) @
     (case amenity item of None \<Rightarrow> [] | Some v \<Rightarrow> [makeTag ''amenity'' v])"

text \<open>Further examples: a waypoint problem on the grid and a landmark.\<close>

definition waypoints_1x2 :: WaypointsShortestPathProblem where
  "waypoints_1x2 = WaypointsShortestPathProblem_init ''0,0'' [''y=1''] ''label=0,1'' grid_1x2"

definition gates_landmark :: Landmark where
  "gates_landmark = \<lparr>geo = grid_geo 0 0, landmark = Some ''gates'', amenity = None\<rparr>"

text \<open>
  The invariant of the search on a shortest-path problem. An edge of the map leads from
  the previous state to a state under the action that names the state's location. A
  state has a link when its backpointer leads along an edge to an older state. The
  explored states, newest first, are linked when each of them is the start state or has
  a link into the states explored before it. The frontier is in order when its states
  are unexplored states of the universe, the explored states are linked, and each
  frontier state is the start state or has a link to an explored state.
\<close>

definition edge :: "CityMap \<Rightarrow> State \<Rightarrow> string \<Rightarrow> State \<Rightarrow> bool" where
  "edge cm prev a s =
     (a = location s \<and> location s \<in> set (dict_keys (defaultdict_get (distances cm) (location prev))))"

definition has_link :: "CityMap \<Rightarrow> (State, string \<times> State) dict \<Rightarrow> State list \<Rightarrow> State \<Rightarrow> bool" where
  "has_link cm backpointers older s =
     (\<exists>link. map_of backpointers s = Some link \<and> snd link \<in> set older \<and> edge cm (snd link) (fst link) s)"

fun linked :: "CityMap \<Rightarrow> (State, string \<times> State) dict \<Rightarrow> State \<Rightarrow> State list \<Rightarrow> bool" where
  "linked cm backpointers start [] = True"
| "linked cm backpointers start (s # older) =
     ((s = start \<or> has_link cm backpointers older s) \<and> linked cm backpointers start older)"

definition frontier_ok :: "CityMap \<Rightarrow> State set \<Rightarrow> State \<Rightarrow> State list
    \<Rightarrow> (State, real) dict \<times> (State, string \<times> State) dict \<Rightarrow> bool" where
  "frontier_ok cm U start explored fb =
     (fst ` set (fst fb) \<subseteq> U - set explored \<and>
      linked cm (snd fb) start explored \<and>
      (\<forall>s \<in> fst ` set (fst fb). s = start \<or> has_link cm (snd fb) explored s))"

definition sp_universe :: "ShortestPathProblem \<Rightarrow> State set" where
  "sp_universe p =
     insert (ShortestPathProblem_startState p)
       ((\<lambda>n. \<lparr>location = n, memory = None\<rparr>) ` fst ` set (concat (map snd (distances (cityMap p)))))"

text \<open>A found path is in order when it follows connections of the map from the start
  location and ends at a location that carries the end tag.\<close>

definition found_path_ok :: "ShortestPathProblem \<Rightarrow> SearchResult \<Rightarrow> bool" where
  "found_path_ok p r =
     (pathCost r = None \<or>
      (connected (cityMap p) (startLocation p # actions r) \<and>
       endTag p \<in> set (defaultdict_get (tags (cityMap p)) (last (startLocation p # actions r)))))"

text \<open>The shortest-path problem on the grid: from \<^verbatim>\<open>0,0\<close> to the location labelled \<^verbatim>\<open>0,1\<close>.\<close>

definition sp_1x2 :: ShortestPathProblem where
  "sp_1x2 = \<lparr>startLocation = ''0,0'', endTag = ''label=0,1'', cityMap = grid_1x2\<rparr>"

text \<open>
  A landmark is snapped to a label when a location under that label lies strictly within
  the tolerance of the landmark and no location is nearer, nor equally near under a
  smaller label. The tags that a list of landmarks contributes to a label are the tags
  of the landmarks snapped to it, in the order of the list.
\<close>

definition snapped :: "CityMap \<Rightarrow> real \<Rightarrow> Landmark \<Rightarrow> string \<Rightarrow> bool" where
  "snapped cm toleranceMeters item label =
     (\<exists>g. (label, g) \<in> set (geoLocations cm) \<and>
          computeDistance (geo item) g < toleranceMeters \<and>
          (\<forall>l' g'. (l', g') \<in> set (geoLocations cm) \<longrightarrow>
             computeDistance (geo item) g \<le> computeDistance (geo item) g' \<and>
             (computeDistance (geo item) g' = computeDistance (geo item) g \<longrightarrow> label \<le> l')))"

definition snapped_tags :: "CityMap \<Rightarrow> real \<Rightarrow> Landmark list \<Rightarrow> string \<Rightarrow> string list" where
  "snapped_tags cm toleranceMeters landmarks label =
     concat (map (\<lambda>item. if snapped cm toleranceMeters item label then landmark_tags item else [])
               landmarks)"

text \<open>A second landmark, with an amenity only.\<close>

definition cafe_landmark :: Landmark where
  "cafe_landmark = \<lparr>geo = grid_geo 0 0, landmark = None, amenity = Some ''food''\<rparr>"

text \<open>Two locations at the same coordinates, the larger label added first.\<close>

definition twin_locations :: CityMap where
  "twin_locations =
     build CityMap_init [AddLocation ''b'' (grid_geo 0 0) [], AddLocation ''a'' (grid_geo 0 0) []]"

text \<open>The coordinates of the locations that carry the end tag.\<close>

definition end_tagged_geos :: "string \<Rightarrow> CityMap \<Rightarrow> GeoLocation set" where
  "end_tagged_geos etag cm =
     {g. \<exists>label. (label, g) \<in> set (geoLocations cm) \<and> etag \<in> set (defaultdict_get (tags cm) label)}"

text \<open>A map with one connection between two labels that no \<^verbatim>\<open>addLocation\<close> call added.\<close>

definition unadded_connection :: CityMap where
  "unadded_connection = build CityMap_init [AddConnection ''a'' ''b'' (Some 1)]"

section \<open>Dictionaries\<close>

lemma map_of_dict_set: "map_of (dict_set d k v) = (map_of d)(k \<mapsto> v)"
  by (induction d) (auto simp: fun_eq_iff)

lemma dict_keys_dict_set: "set (dict_keys (dict_set d k v)) = insert k (set (dict_keys d))"
proof -
  have "set (dict_keys d') = dom (map_of d')" for d' :: "('a, 'b) dict"
    by (simp add: dict_keys_def dom_map_of_conv_image_fst)
  then show ?thesis by (simp add: map_of_dict_set)
qed

lemma distinct_dict_set: "distinct (dict_keys d) \<Longrightarrow> distinct (dict_keys (dict_set d k v))"
proof (induction d)
  case Nil
  then show ?case by (simp add: dict_keys_def)
next
  case (Cons p d)
  have "set (map fst (dict_set d k v)) = insert k (set (map fst d))"
    using dict_keys_dict_set [of d k v] by (simp add: dict_keys_def)
  with Cons show ?case by (cases p) (auto simp: dict_keys_def)
qed

lemma distance_entry_set_distance:
  "distance_entry (set_distance d a b c) x y =
     (if x = a \<and> y = b then Some c else distance_entry d x y)"
  by (simp add: distance_entry_def set_distance_def defaultdict_get_def map_of_dict_set)

lemma grid_1x2_eq:
  "grid_1x2 =
     \<lparr>geoLocations = [(''0,0'', grid_geo 0 0), (''0,1'', grid_geo 0 (1 / 100000))],
      tags = [(''0,0'', [''label=0,0'', ''x=0'', ''y=0'']), (''0,1'', [''label=0,1'', ''x=0'', ''y=1''])],
      distances = [(''0,0'', [(''0,1'', 1)]), (''0,1'', [(''0,0'', 1)])]\<rparr>"
  by (simp add: grid_1x2_def grid_1x2_calls_def CityMap_init_def addLocation_def addConnection_def
      set_distance_def defaultdict_get_def dict_keys_def makeTag_def)

lemma computeDistance_same: "computeDistance g g = 0"
  by (simp add: computeDistance_def)

lemma unadded_connection_eq:
  "unadded_connection =
     \<lparr>geoLocations = [], tags = [], distances = [(''a'', [(''b'', 1)]), (''b'', [(''a'', 1)])]\<rparr>"
  by (simp add: unadded_connection_def CityMap_init_def addConnection_def set_distance_def
      defaultdict_get_def)

lemma twin_locations_eq:
  "twin_locations =
     \<lparr>geoLocations = [(''b'', grid_geo 0 0), (''a'', grid_geo 0 0)],
      tags = [(''b'', [''label=b'']), (''a'', [''label=a''])], distances = []\<rparr>"
  by (simp add: twin_locations_def CityMap_init_def addLocation_def dict_keys_def makeTag_def)

section \<open>The distances mapping is symmetric\<close>

lemma addConnection_distances:
  assumes "addConnection cm s t d = Inr cm'"
  obtains c where "distances cm' = set_distance (set_distance (distances cm) s t c) t s c"
    and "geoLocations cm' = geoLocations cm" and "tags cm' = tags cm"
    and "d = Some c \<or> (d = None \<and> s \<in> set (dict_keys (geoLocations cm)) \<and> t \<in> set (dict_keys (geoLocations cm)))"
proof (cases d)
  case None
  with assms obtain g1 g2 where "dict_get (geoLocations cm) s = Inr g1" "dict_get (geoLocations cm) t = Inr g2"
     and cm': "cm' = cm\<lparr>distances := set_distance (set_distance (distances cm) s t (computeDistance g1 g2)) t s (computeDistance g1 g2)\<rparr>"
    by (simp add: addConnection_def split: sum.splits)
  then have "s \<in> set (dict_keys (geoLocations cm))" "t \<in> set (dict_keys (geoLocations cm))"
    by (auto simp: dict_get_def dict_keys_def split: option.splits dest: map_of_SomeD intro: rev_image_eqI)
  with cm' None that [of "computeDistance g1 g2"] show ?thesis by simp
next
  case (Some c)
  with assms have "cm' = cm\<lparr>distances := set_distance (set_distance (distances cm) s t c) t s c\<rparr>"
    by (simp add: addConnection_def)
  with Some that [of c] show ?thesis by simp
qed

lemma set_distance_twice:
  "distance_entry (set_distance (set_distance d s t c) t s c) a b =
     (if (a = s \<and> b = t) \<or> (a = t \<and> b = s) then Some c else distance_entry d a b)"
  apply (subst distance_entry_set_distance)
  apply (subst distance_entry_set_distance)
  apply (simp only: split: if_splits)
  apply blast
  done

lemma addConnection_symmetric:
  assumes "\<And>a b. distance_entry (distances cm) a b = distance_entry (distances cm) b a"
    and "addConnection cm s t d = Inr cm'"
  shows "distance_entry (distances cm') a b = distance_entry (distances cm') b a"
proof -
  from assms(2) obtain c where
    d': "distances cm' = set_distance (set_distance (distances cm) s t c) t s c"
    by (rule addConnection_distances)
  have "((a = s \<and> b = t) \<or> (a = t \<and> b = s)) = ((b = s \<and> a = t) \<or> (b = t \<and> a = s))"
    by blast
  then show ?thesis
    unfolding d' set_distance_twice assms(1) [of a b] by (simp only:)
qed

lemma addLocation_distances: "addLocation cm l g ts = Inr cm' \<Longrightarrow> distances cm' = distances cm"
  by (auto simp: addLocation_def split: if_splits)

lemma apply_call_symmetric:
  assumes "\<And>a b. distance_entry (distances cm) a b = distance_entry (distances cm) b a"
    and "apply_call cm c = Inr cm'"
  shows "distance_entry (distances cm') a b = distance_entry (distances cm') b a"
proof (cases c)
  case (AddLocation l g ts)
  with assms show ?thesis by (simp add: addLocation_distances)
next
  case (AddConnection s t d)
  with assms addConnection_symmetric [of cm s t d cm'] show ?thesis by simp
qed

lemma build_symmetric:
  "(\<And>a b. distance_entry (distances cm) a b = distance_entry (distances cm) b a) \<Longrightarrow>
   distance_entry (distances (build cm calls)) a b = distance_entry (distances (build cm calls)) b a"
proof (induction calls arbitrary: cm)
  case Nil
  then show ?case by simp
next
  case (Cons c calls)
  show ?case
  proof (cases "apply_call cm c")
    case (Inl e)
    with Cons show ?thesis by simp
  next
    case (Inr cm')
    have "distance_entry (distances cm') x y = distance_entry (distances cm') y x" for x y
      using apply_call_symmetric [OF Cons.prems Inr] .
    with Cons.IH [of cm'] Inr show ?thesis by simp
  qed
qed

text \<open>
  C4. After any sequence of \<^verbatim>\<open>addLocation\<close> and \<^verbatim>\<open>addConnection\<close> calls on a new map, with
  or without explicit costs and whether or not a call raises, the distances mapping is
  symmetric: \<^verbatim>\<open>distances[a][b]\<close> is present iff \<^verbatim>\<open>distances[b][a]\<close> is, and the two
  values are then equal.
\<close>

theorem distances_symmetric:
  "distance_entry (distances (build CityMap_init calls)) a b =
   distance_entry (distances (build CityMap_init calls)) b a"
  by (rule build_symmetric) (simp add: CityMap_init_def distance_entry_def defaultdict_get_def)

theorem distances_symmetric_witness:
  "distance_entry (distances grid_1x2) ''0,0'' ''0,1'' = Some 1 \<and>
   distance_entry (distances grid_1x2) ''0,1'' ''0,0'' = Some 1"
  using distances_symmetric [of grid_1x2_calls "''0,0''" "''0,1''"]
  by (simp add: grid_1x2_def [symmetric] grid_1x2_eq distance_entry_def defaultdict_get_def)

section \<open>locationFromTag\<close>

lemma hd_sorted_Min: "sorted xs \<Longrightarrow> xs \<noteq> [] \<Longrightarrow> hd xs = Min (set xs)"
  for xs :: "'a::linorder list"
  by (cases xs) (auto intro!: Min_eqI [symmetric])

lemma hd_sort_Min: "xs \<noteq> [] \<Longrightarrow> hd (sort xs) = Min (set xs)"
  for xs :: "'a::linorder list"
proof -
  assume "xs \<noteq> []"
  then have "sort xs \<noteq> []" by (metis set_empty set_sort)
  then show ?thesis using hd_sorted_Min [of "sort xs"] by simp
qed

lemma locations_with_tag_list:
  "locations_with_tag tag cm = set (map fst (filter (\<lambda>p. tag \<in> set (snd p)) (tags cm)))"
  by (auto simp: locations_with_tag_def)

text \<open>
  C7. \<^verbatim>\<open>locationFromTag\<close> returns the lexicographically smallest label among the
  locations whose tag list holds the tag, and \<^verbatim>\<open>None\<close> when no location carries the
  tag. It is a function of the tag and the map alone and has no raising branch, so it
  never raises and repeated calls on an unmodified map return the same label.
\<close>

theorem locationFromTag_smallest:
  "locationFromTag tag cm =
     (if locations_with_tag tag cm = {} then None else Some (Min (locations_with_tag tag cm)))"
proof -
  let ?xs = "map fst (filter (\<lambda>(location, ts). tag \<in> set ts) (tags cm))"
  have s: "set ?xs = locations_with_tag tag cm"
    by (auto simp: locations_with_tag_def)
  show ?thesis
  proof (cases "?xs = []")
    case True
    with s show ?thesis by (simp add: locationFromTag_def)
  next
    case False
    then have ne: "sort ?xs \<noteq> []" by (metis set_empty set_sort)
    from False have "locations_with_tag tag cm \<noteq> {}" using s by (metis set_empty)
    moreover have "hd (sort ?xs) = Min (locations_with_tag tag cm)"
      using hd_sort_Min [OF False] s by simp
    ultimately show ?thesis using ne by (simp add: locationFromTag_def Let_def)
  qed
qed

theorem locationFromTag_smallest_witness:
  "locationFromTag ''x=0'' grid_1x2 = Some ''0,0'' \<and> locationFromTag ''x=7'' grid_1x2 = None"
  using locationFromTag_smallest [of "''x=0''" grid_1x2] locationFromTag_smallest [of "''x=7''" grid_1x2]
  by (simp add: grid_1x2_eq locations_with_tag_list)

section \<open>Labels of the distances mapping\<close>

lemma set_dict_set: "set (dict_set d k v) \<subseteq> insert (k, v) (set d)"
  by (induction d) (auto split: if_splits)

lemma defaultdict_get_keys:
  "set (dict_keys (defaultdict_get d a)) \<subseteq> (\<Union>p \<in> set d. set (dict_keys (snd p)))"
proof (cases "map_of d a")
  case None
  then show ?thesis by (simp add: defaultdict_get_def dict_keys_def)
next
  case (Some inner)
  then have "(a, inner) \<in> set d" by (rule map_of_SomeD)
  then have "set (dict_keys inner) \<subseteq> (\<Union>p \<in> set d. set (dict_keys (snd p)))" by force
  with Some show ?thesis by (simp add: defaultdict_get_def)
qed

lemma distance_labels_set_distance:
  "distance_labels (set_distance d a b c) \<subseteq> insert a (insert b (distance_labels d))"
proof -
  let ?inner = "dict_set (defaultdict_get d a) b c"
  have keys: "set (dict_keys (set_distance d a b c)) = insert a (set (dict_keys d))"
    by (simp add: set_distance_def dict_keys_dict_set)
  have inner: "set (dict_keys ?inner) \<subseteq> insert b (\<Union>p \<in> set d. set (dict_keys (snd p)))"
    using defaultdict_get_keys [of d a] by (auto simp: dict_keys_dict_set)
  have "set (set_distance d a b c) \<subseteq> insert (a, ?inner) (set d)"
    unfolding set_distance_def by (rule set_dict_set)
  then have "(\<Union>p \<in> set (set_distance d a b c). set (dict_keys (snd p)))
      \<subseteq> set (dict_keys ?inner) \<union> (\<Union>p \<in> set d. set (dict_keys (snd p)))"
    by fastforce
  with keys inner show ?thesis
    unfolding distance_labels_def by blast
qed

lemma addLocation_geoLocations:
  "addLocation cm l g ts = Inr cm' \<Longrightarrow>
   set (dict_keys (geoLocations cm')) = insert l (set (dict_keys (geoLocations cm))) \<and>
   distances cm' = distances cm"
  by (auto simp: addLocation_def dict_keys_dict_set split: if_splits)

lemma apply_call_labels:
  assumes inv: "distance_labels (distances cm) \<subseteq> set (dict_keys (geoLocations cm))"
    and known: "endpoints_known cm (c # cs)"
    and ok: "apply_call cm c = Inr cm'"
  shows "distance_labels (distances cm') \<subseteq> set (dict_keys (geoLocations cm'))"
proof (cases c)
  case (AddLocation l g ts)
  with ok have "set (dict_keys (geoLocations cm')) = insert l (set (dict_keys (geoLocations cm)))"
    and "distances cm' = distances cm"
    using addLocation_geoLocations [of cm l g ts cm'] by simp_all
  with inv show ?thesis by auto
next
  case (AddConnection s t d)
  with ok obtain c' where d': "distances cm' = set_distance (set_distance (distances cm) s t c') t s c'"
    and g: "geoLocations cm' = geoLocations cm"
    and how: "d = Some c' \<or> (d = None \<and> s \<in> set (dict_keys (geoLocations cm)) \<and> t \<in> set (dict_keys (geoLocations cm)))"
    using addConnection_distances [of cm s t d cm'] by auto
  from how known AddConnection
  have st: "s \<in> set (dict_keys (geoLocations cm))" "t \<in> set (dict_keys (geoLocations cm))"
    by auto
  have "distance_labels (distances cm') \<subseteq> insert s (insert t (distance_labels (distances cm)))"
    using distance_labels_set_distance [of "set_distance (distances cm) s t c'" t s c']
      distance_labels_set_distance [of "distances cm" s t c'] d' by auto
  with st inv g show ?thesis by auto
qed

lemma build_labels:
  "distance_labels (distances cm) \<subseteq> set (dict_keys (geoLocations cm)) \<Longrightarrow>
   endpoints_known cm calls \<Longrightarrow>
   distance_labels (distances (build cm calls)) \<subseteq> set (dict_keys (geoLocations (build cm calls)))"
proof (induction calls arbitrary: cm)
  case Nil
  then show ?case by simp
next
  case (Cons c calls)
  show ?case
  proof (cases "apply_call cm c")
    case (Inl e)
    with Cons.prems have "endpoints_known cm calls" by simp
    with Cons.IH [of cm] Cons.prems(1) Inl show ?thesis by simp
  next
    case (Inr cm')
    with Cons.prems have "endpoints_known cm' calls" by simp
    moreover have "distance_labels (distances cm') \<subseteq> set (dict_keys (geoLocations cm'))"
      using apply_call_labels [OF Cons.prems Inr] .
    ultimately show ?thesis using Cons.IH [of cm'] Inr by simp
  qed
qed

text \<open>
  C6, as the code has it. \<^verbatim>\<open>addConnection\<close> with an explicit cost writes both entries
  without looking at \<^verbatim>\<open>geoLocations\<close>, so a connection between labels that were never
  added puts labels into the distances mapping that are no locations.
\<close>

theorem distance_labels_counterexample:
  "''a'' \<in> distance_labels (distances (build CityMap_init [AddConnection ''a'' ''b'' (Some 1)])) \<and>
   ''a'' \<notin> set (dict_keys (geoLocations (build CityMap_init [AddConnection ''a'' ''b'' (Some 1)])))"
  by (simp add: CityMap_init_def addConnection_def set_distance_def defaultdict_get_def
      distance_labels_def dict_keys_def)

text \<open>
  C6, amended. For a map built from a new map by a sequence of \<^verbatim>\<open>addLocation\<close> and
  \<^verbatim>\<open>addConnection\<close> calls in which every \<^verbatim>\<open>addConnection\<close> with an explicit cost names two
  labels that are keys of the locations mapping at the time of the call, every label that
  occurs as an outer or an inner key of the distances mapping is a key of the locations
  mapping. Calls that omit the cost need no condition: they raise \<^verbatim>\<open>KeyError\<close> on an
  unknown label before anything is written.
\<close>

theorem distance_labels_are_locations:
  "endpoints_known CityMap_init calls \<Longrightarrow>
   distance_labels (distances (build CityMap_init calls))
     \<subseteq> set (dict_keys (geoLocations (build CityMap_init calls)))"
  by (rule build_labels) (simp_all add: CityMap_init_def distance_labels_def dict_keys_def)

theorem distance_labels_are_locations_witness:
  "endpoints_known CityMap_init grid_1x2_calls \<and>
   distance_labels (distances grid_1x2) \<subseteq> set (dict_keys (geoLocations grid_1x2))"
proof -
  have h: "endpoints_known CityMap_init grid_1x2_calls"
    by (simp add: grid_1x2_calls_def CityMap_init_def addLocation_def dict_keys_def)
  show ?thesis
    using h distance_labels_are_locations [OF h] by (simp add: grid_1x2_def)
qed

section \<open>Locations the map does not know\<close>

lemma defaultdict_get_unknown: "k \<notin> set (dict_keys d) \<Longrightarrow> defaultdict_get d k = []"
proof -
  assume "k \<notin> set (dict_keys d)"
  then have "map_of d k = None" by (simp add: dict_keys_def map_of_eq_None_iff)
  then show ?thesis by (simp add: defaultdict_get_def)
qed

text \<open>
  C10, as the code has it. \<^verbatim>\<open>addConnection\<close> with an explicit cost stores distances for
  labels that were never added as locations. Such a label is a key of neither
  \<^verbatim>\<open>geoLocations\<close> nor \<^verbatim>\<open>tags\<close>, and \<^verbatim>\<open>successorsAndCosts\<close> at it returns its neighbour,
  not the empty list.
\<close>

theorem unadded_label_successors_counterexample:
  "''a'' \<notin> set (dict_keys (geoLocations unadded_connection)) \<and>
   ''a'' \<notin> set (dict_keys (tags unadded_connection)) \<and>
   successorsAndCosts
     (ShortestPathProblem_problem \<lparr>startLocation = ''a'', endTag = ''label=b'', cityMap = unadded_connection\<rparr>)
     \<lparr>location = ''a'', memory = None\<rparr> =
     Inr [(''b'', \<lparr>location = ''b'', memory = None\<rparr>, 1)]"
  by (simp add: unadded_connection_eq dict_keys_def ShortestPathProblem_problem_def
      ShortestPathProblem_successorsAndCosts_def defaultdict_get_def)

text \<open>
  C10, amended. For a state whose location label is a key of neither the tags mapping
  nor the distances mapping (a label that no \<^verbatim>\<open>addLocation\<close> call added and no
  \<^verbatim>\<open>addConnection\<close> call named), \<^verbatim>\<open>ShortestPathProblem.isEnd\<close> returns \<^verbatim>\<open>False\<close> and
  \<^verbatim>\<open>successorsAndCosts\<close> returns the empty list; neither raises, since both mappings
  yield their empty default for an unknown label.
\<close>

theorem unknown_location_no_successors:
  assumes "location state \<notin> set (dict_keys (tags (cityMap p)))"
    and "location state \<notin> set (dict_keys (distances (cityMap p)))"
  shows "isEnd (ShortestPathProblem_problem p) state = Inr False \<and>
         successorsAndCosts (ShortestPathProblem_problem p) state = Inr []"
  using assms
  by (simp add: ShortestPathProblem_problem_def ShortestPathProblem_isEnd_def
      ShortestPathProblem_successorsAndCosts_def defaultdict_get_unknown)

theorem unknown_location_no_successors_witness:
  "isEnd (ShortestPathProblem_problem \<lparr>startLocation = ''0,0'', endTag = ''x=0'', cityMap = grid_1x2\<rparr>)
      \<lparr>location = ''5,5'', memory = None\<rparr> = Inr False \<and>
   successorsAndCosts (ShortestPathProblem_problem \<lparr>startLocation = ''0,0'', endTag = ''x=0'', cityMap = grid_1x2\<rparr>)
      \<lparr>location = ''5,5'', memory = None\<rparr> = Inr []"
  using unknown_location_no_successors
    [of "\<lparr>location = ''5,5'', memory = None\<rparr>"
        "\<lparr>startLocation = ''0,0'', endTag = ''x=0'', cityMap = grid_1x2\<rparr>"]
  by (simp add: grid_1x2_eq dict_keys_def)

section \<open>Successors of the waypoint problem\<close>

lemma list_index_append:
  "x \<notin> set kept \<Longrightarrow> list_index (kept @ x # rest) x = Inr (length kept)"
  by (induction kept) auto

lemma list_pop_append: "list_pop (kept @ x # rest) (length kept) = kept @ rest"
  by (simp add: list_pop_def)

lemma pop_satisfied_filter:
  "set kept \<inter> set location_tags = {} \<Longrightarrow>
   pop_satisfied location_tags rest (kept @ rest) =
     Inr (kept @ filter (\<lambda>tag. tag \<notin> set location_tags) rest)"
proof (induction rest arbitrary: kept)
  case Nil
  then show ?case by simp
next
  case (Cons tag rest)
  show ?case
  proof (cases "tag \<in> set location_tags")
    case True
    with Cons.prems have "tag \<notin> set kept" by auto
    then have "list_index (kept @ tag # rest) tag = Inr (length kept)"
      by (rule list_index_append)
    with True Cons.IH [OF Cons.prems] show ?thesis
      by (simp add: list_pop_append)
  next
    case False
    with Cons.prems have "set (kept @ [tag]) \<inter> set location_tags = {}" by auto
    from Cons.IH [OF this] False show ?thesis by simp
  qed
qed

lemma collect_total: "collect (\<lambda>x. Inr (f x)) xs = Inr (map f xs)"
  by (induction xs) auto

text \<open>
  C3. For a state at location \<open>L\<close> with memory \<open>m\<close>, \<^verbatim>\<open>successorsAndCosts\<close> of the
  waypoint problem returns one triple per neighbour \<open>N\<close> of \<open>L\<close>, in the order of the
  distances mapping: the action \<open>N\<close>, the state at \<open>N\<close> whose memory is the sorted tuple
  of the tags of \<open>m\<close> that \<open>L\<close> does not carry, and the edge distance plus 50 for each tag
  of that next memory. The tags of the start location are thus removed by the first
  move.
\<close>

theorem waypoints_successors:
  "WaypointsShortestPathProblem_successorsAndCosts p \<lparr>location = L, memory = Some m\<rparr> =
     Inr (map (\<lambda>(N, distance).
                 (N,
                  \<lparr>location = N, memory = Some (sort (remaining_tags (cityMap p) L m))\<rparr>,
                  distance + real (length (remaining_tags (cityMap p) L m)) * 50))
            (defaultdict_get (distances (cityMap p)) L))"
proof -
  have "pop_satisfied (defaultdict_get (tags (cityMap p)) L) m m = Inr (remaining_tags (cityMap p) L m)"
    using pop_satisfied_filter [of "[]" "defaultdict_get (tags (cityMap p)) L" m]
    by (simp add: remaining_tags_def)
  then have "WaypointsShortestPathProblem_successor p \<lparr>location = L, memory = Some m\<rparr> =
      (\<lambda>nd. Inr (fst nd, \<lparr>location = fst nd, memory = Some (sort (remaining_tags (cityMap p) L m))\<rparr>,
                     snd nd + real (length (remaining_tags (cityMap p) L m)) * 50))"
    by (simp add: WaypointsShortestPathProblem_successor_def fun_eq_iff)
  then show ?thesis
    by (simp add: WaypointsShortestPathProblem_successorsAndCosts_def collect_total case_prod_beta)
qed

theorem waypoints_successors_witness:
  "WaypointsShortestPathProblem_successorsAndCosts
     (WaypointsShortestPathProblem_init ''0,0'' [''y=1'', ''x=0''] ''label=0,1'' grid_1x2)
     \<lparr>location = ''0,0'', memory = Some [''x=0'', ''y=1'']\<rparr> =
     Inr [(''0,1'', \<lparr>location = ''0,1'', memory = Some [''y=1'']\<rparr>, 51)]"
  using waypoints_successors
    [of "WaypointsShortestPathProblem_init ''0,0'' [''y=1'', ''x=0''] ''label=0,1'' grid_1x2"
        "''0,0''" "[''x=0'', ''y=1'']"]
  by (simp add: WaypointsShortestPathProblem_init_def remaining_tags_def grid_1x2_eq defaultdict_get_def)

section \<open>The A* reduction on the two problems\<close>

text \<open>
  On a shortest-path problem the reduction does what its comment says: the start state
  and the goal test are the problem's, and each successor of the problem comes back with
  the heuristic's value for the next state added to its cost (or with the heuristic's
  exception).
\<close>

lemma collect_map: "collect f (map g xs) = collect (\<lambda>x. f (g x)) xs"
  by (induction xs) (simp_all split: sum.splits)

lemma aStarReduction_shortest_path:
  "startState (aStarReduction (ShortestPathProblem_problem p) h) = ShortestPathProblem_startState p \<and>
   isEnd (aStarReduction (ShortestPathProblem_problem p) h) state = Inr (ShortestPathProblem_isEnd p state) \<and>
   successorsAndCosts (aStarReduction (ShortestPathProblem_problem p) h) state =
     collect (\<lambda>(action, nextState, cost).
                case evaluate h nextState of
                  Inl e \<Rightarrow> Inl e
                | Inr future_cost \<Rightarrow> Inr (action, nextState, cost + future_cost))
       (ShortestPathProblem_successorsAndCosts p state)"
proof -
  have "aStarReduction_successor h =
      (\<lambda>x. case evaluate h \<lparr>location = fst x, memory = None\<rparr> of
              Inl e \<Rightarrow> Inl e
            | Inr future_cost \<Rightarrow> Inr (fst x, \<lparr>location = fst x, memory = None\<rparr>, snd x + future_cost))"
    by (simp add: aStarReduction_successor_def fun_eq_iff Let_def)
  then show ?thesis
    by (simp add: aStarReduction_def ShortestPathProblem_problem_def
        ShortestPathProblem_successorsAndCosts_def collect_map case_prod_beta cong: sum.case_cong)
qed

text \<open>
  C1 at a waypoint problem. On the grid of two cells with the waypoint tag \<^verbatim>\<open>y=1\<close>, the
  problem's successor of the start state keeps the memory and carries the surcharge; the
  successor of the reduced problem, under the zero heuristic, has \<^verbatim>\<open>memory=None\<close> and the
  bare edge distance. The reduction rebuilds the successors from
  \<^verbatim>\<open>problem.cityMap.distances\<close> instead of forwarding \<^verbatim>\<open>problem.successorsAndCosts\<close>.
\<close>

theorem aStarReduction_drops_memory:
  "successorsAndCosts (WaypointsShortestPathProblem_problem waypoints_1x2)
     (WaypointsShortestPathProblem_startState waypoints_1x2) =
     Inr [(''0,1'', \<lparr>location = ''0,1'', memory = Some [''y=1'']\<rparr>, 51)] \<and>
   successorsAndCosts (aStarReduction (WaypointsShortestPathProblem_problem waypoints_1x2) ZeroHeuristic)
     (WaypointsShortestPathProblem_startState waypoints_1x2) =
     Inr [(''0,1'', \<lparr>location = ''0,1'', memory = None\<rparr>, 1)]"
  by (simp add: waypoints_1x2_def WaypointsShortestPathProblem_init_def
      WaypointsShortestPathProblem_problem_def WaypointsShortestPathProblem_startState_def
      WaypointsShortestPathProblem_successorsAndCosts_def WaypointsShortestPathProblem_successor_def
      aStarReduction_def aStarReduction_successor_def ZeroHeuristic_def
      grid_1x2_eq defaultdict_get_def)

section \<open>Heuristics on states without a precomputed entry\<close>

lemma foldl_shortest:
  "foldl (\<lambda>shortest target. if f target < shortest then f target else shortest) (b::real) ts =
     Min (insert b (f ` set ts))"
proof (induction ts arbitrary: b)
  case Nil
  then show ?case by simp
next
  case (Cons t ts)
  have "Min (insert (min (f t) b) (f ` set ts)) = Min (insert b (insert (f t) (f ` set ts)))"
  proof (cases "f ` set ts = {}")
    case True
    then show ?thesis by (simp add: min.commute)
  next
    case False
    then show ?thesis by (simp add: min.assoc min.left_commute)
  qed
  moreover have "(if f t < b then f t else b) = min (f t) b" by (simp add: min_def)
  ultimately show ?case using Cons.IH [of "min (f t) b"] by simp
qed

lemma targets_end_tagged:
  "set (targets (StraightLineHeuristic_init etag cm)) = end_tagged_geos etag cm"
  by (auto simp: StraightLineHeuristic_init_def end_tagged_geos_def intro: rev_image_eqI)

text \<open>
  C9, as the code has it. On the grid no location carries the tag \<^verbatim>\<open>x=7\<close>, so the
  straight-line heuristic has no target; its \<^verbatim>\<open>evaluate\<close> returns the initial value of its
  minimum loop, 10000000.0, and does not raise.
\<close>

theorem straight_line_sentinel_counterexample:
  "StraightLineHeuristic_evaluate (StraightLineHeuristic_init ''x=7'' grid_1x2)
     \<lparr>location = ''0,0'', memory = None\<rparr> = Inr 10000000"
  by (simp add: StraightLineHeuristic_evaluate_def StraightLineHeuristic_init_def grid_1x2_eq
      dict_get_def defaultdict_get_def)

text \<open>
  C9, amended, for the straight-line heuristic. \<^verbatim>\<open>StraightLineHeuristic.evaluate\<close> raises
  \<^verbatim>\<open>KeyError\<close> exactly when the state's location is no key of the locations mapping. For
  a known location it does not raise: it returns the least of 10000000.0 and the
  straight-line distances to the locations that carry the end tag, hence 10000000.0 when
  no location carries the end tag.
\<close>

theorem StraightLineHeuristic_evaluate_least:
  "StraightLineHeuristic_evaluate (StraightLineHeuristic_init etag cm) state =
     (case map_of (geoLocations cm) (location state) of
        None \<Rightarrow> Inl KeyError
      | Some g \<Rightarrow>
          Inr (Min (insert 10000000 ((\<lambda>target. computeDistance target g) ` end_tagged_geos etag cm))))"
proof -
  have "heuristic_cityMap (StraightLineHeuristic_init etag cm) = cm"
    by (simp add: StraightLineHeuristic_init_def)
  then show ?thesis
    by (simp add: StraightLineHeuristic_evaluate_def dict_get_def foldl_shortest targets_end_tagged
        split: option.splits)
qed

theorem StraightLineHeuristic_evaluate_least_witness:
  "StraightLineHeuristic_evaluate (StraightLineHeuristic_init ''label=0,0'' grid_1x2)
     \<lparr>location = ''0,0'', memory = None\<rparr> = Inr 0 \<and>
   StraightLineHeuristic_evaluate (StraightLineHeuristic_init ''x=7'' grid_1x2)
     \<lparr>location = ''0,1'', memory = None\<rparr> = Inr 10000000 \<and>
   StraightLineHeuristic_evaluate (StraightLineHeuristic_init ''x=7'' grid_1x2)
     \<lparr>location = ''9,9'', memory = None\<rparr> = Inl KeyError"
proof -
  have a: "end_tagged_geos ''label=0,0'' grid_1x2 = {grid_geo 0 0}"
    unfolding targets_end_tagged [symmetric]
    by (simp add: StraightLineHeuristic_init_def grid_1x2_eq defaultdict_get_def)
  have b: "end_tagged_geos ''x=7'' grid_1x2 = {}"
    unfolding targets_end_tagged [symmetric]
    by (simp add: StraightLineHeuristic_init_def grid_1x2_eq defaultdict_get_def)
  have m: "map_of (geoLocations grid_1x2) ''0,0'' = Some (grid_geo 0 0)"
    "map_of (geoLocations grid_1x2) ''0,1'' = Some (grid_geo 0 (1 / 100000))"
    "map_of (geoLocations grid_1x2) ''9,9'' = None"
    by (simp_all add: grid_1x2_eq)
  show ?thesis
    using StraightLineHeuristic_evaluate_least [of "''label=0,0''" grid_1x2 "\<lparr>location = ''0,0'', memory = None\<rparr>"]
      StraightLineHeuristic_evaluate_least [of "''x=7''" grid_1x2 "\<lparr>location = ''0,1'', memory = None\<rparr>"]
      StraightLineHeuristic_evaluate_least [of "''x=7''" grid_1x2 "\<lparr>location = ''9,9'', memory = None\<rparr>"]
    by (simp add: a b m computeDistance_same)
qed

text \<open>
  C5 at any state. \<^verbatim>\<open>NoWaypointsHeuristic.evaluate\<close> returns no cost: it raises
  \<^verbatim>\<open>Exception("Not implemented yet")\<close>.
\<close>

theorem NoWaypointsHeuristic_evaluate_raises:
  "NoWaypointsHeuristic_evaluate h state = Inl (Exception ''Not implemented yet'')"
  by (simp add: NoWaypointsHeuristic_evaluate_def)

section \<open>Landmark augmentation\<close>

lemma tuple_less_trans: "tuple_less a b \<Longrightarrow> tuple_less b c \<Longrightarrow> tuple_less a c"
  unfolding tuple_less_def by (metis less_trans)

lemma tuple_less_total: "\<not> tuple_less a b \<Longrightarrow> \<not> tuple_less b a \<Longrightarrow> a = b"
  unfolding tuple_less_def by (metis linorder_neqE prod_eqI)

lemma tuple_less_asym: "tuple_less a b \<Longrightarrow> \<not> tuple_less b a"
  unfolding tuple_less_def by (metis less_asym)

text \<open>The loop of min over any strict total order.\<close>

lemma foldl_least_step:
  fixes less :: "'a \<Rightarrow> 'a \<Rightarrow> bool"
  assumes tr: "\<And>a b c. less a b \<Longrightarrow> less b c \<Longrightarrow> less a c"
    and tot: "\<And>a b. \<not> less a b \<Longrightarrow> \<not> less b a \<Longrightarrow> a = b"
    and asym: "\<And>a b. less a b \<Longrightarrow> \<not> less b a"
  shows "foldl (\<lambda>best y. if less y best then y else best) x xs \<in> set (x # xs) \<and>
   (\<forall>y \<in> set (x # xs). \<not> less y (foldl (\<lambda>best y. if less y best then y else best) x xs))"
proof (induction xs arbitrary: x)
  case Nil
  then show ?case using asym by auto
next
  case (Cons z zs)
  define x' where "x' = (if less z x then z else x)"
  define r where "r = foldl (\<lambda>best y. if less y best then y else best) x' zs"
  from Cons.IH [of x']
  have mem: "r \<in> set (x' # zs)"
    and least: "\<forall>y \<in> set (x' # zs). \<not> less y r"
    unfolding r_def by blast+
  have x': "\<not> less x x'" "\<not> less z x'" "x' = x \<or> x' = z"
    unfolding x'_def using asym by auto
  from least have le: "\<not> less x' r" by simp
  have up: "\<not> less y r" if "\<not> less y x'" for y
  proof
    assume a: "less y r"
    show False
    proof (cases "less r x'")
      case True
      with a have "less y x'" by (rule tr)
      with that show False by contradiction
    next
      case False
      with le have "r = x'" using tot [of r x'] by blast
      with a that show False by blast
    qed
  qed
  have "\<not> less x r" "\<not> less z r"
    using up [OF x'(1)] up [OF x'(2)] by blast+
  moreover have "r \<in> set (x # z # zs)"
    using mem x'(3) by auto
  moreover have "foldl (\<lambda>best y. if less y best then y else best) x (z # zs) = r"
    by (simp add: r_def x'_def)
  ultimately show ?case using least by auto
qed

lemma py_min_least:
  assumes "xs \<noteq> []"
  obtains best where "py_min xs = Inr best" "best \<in> set xs" "\<forall>y \<in> set xs. \<not> tuple_less y best"
proof (cases xs)
  case Nil
  with assms show ?thesis by simp
next
  case (Cons x xs')
  have "foldl (\<lambda>best y. if tuple_less y best then y else best) x xs' \<in> set (x # xs') \<and>
   (\<forall>y \<in> set (x # xs'). \<not> tuple_less y (foldl (\<lambda>best y. if tuple_less y best then y else best) x xs'))"
    by (rule foldl_least_step) (blast intro: tuple_less_trans tuple_less_total dest: tuple_less_asym)+
  with Cons that show ?thesis by simp
qed

lemma defaultdict_get_dict_set:
  "defaultdict_get (dict_set d k v) x = (if x = k then v else defaultdict_get d x)"
  by (simp add: defaultdict_get_def map_of_dict_set)

lemma append_tag_frame:
  "geoLocations (append_tag l cm kv) = geoLocations cm \<and> distances (append_tag l cm kv) = distances cm"
  by (simp add: append_tag_def split: option.splits)

lemma append_tag_tags:
  "defaultdict_get (tags (append_tag l cm kv)) x =
     (if x = l then defaultdict_get (tags cm) l @ (case snd kv of None \<Rightarrow> [] | Some v \<Rightarrow> [makeTag (fst kv) v])
      else defaultdict_get (tags cm) x)"
proof (cases "snd kv")
  case None
  then show ?thesis by (simp add: append_tag_def)
next
  case (Some v)
  then show ?thesis by (simp add: append_tag_def defaultdict_get_dict_set)
qed

lemma append_both_tags:
  "defaultdict_get (tags (foldl (append_tag l) cm [(''landmark'', landmark item), (''amenity'', amenity item)])) x =
     (if x = l then defaultdict_get (tags cm) l @ landmark_tags item else defaultdict_get (tags cm) x)"
  by (simp only: foldl.simps append_tag_tags landmark_tags_def fst_conv snd_conv append_assoc if_True
      split: if_splits) simp

lemma append_both_frame:
  "geoLocations (foldl (append_tag l) cm [(''landmark'', landmark item), (''amenity'', amenity item)]) = geoLocations cm \<and>
   distances (foldl (append_tag l) cm [(''landmark'', landmark item), (''amenity'', amenity item)]) = distances cm"
  by (simp add: append_tag_frame)

lemma addLandmark_effect:
  assumes "geoLocations cm \<noteq> []"
  obtains bestLabel bestGeo cm' where
    "(bestLabel, bestGeo) \<in> set (geoLocations cm)"
    "\<forall>(l, g) \<in> set (geoLocations cm).
        computeDistance (geo item) bestGeo \<le> computeDistance (geo item) g \<and>
        (computeDistance (geo item) g = computeDistance (geo item) bestGeo \<longrightarrow> bestLabel \<le> l)"
    "addLandmark cm tol item = Inr cm'"
    "geoLocations cm' = geoLocations cm" "distances cm' = distances cm"
    "\<forall>label. defaultdict_get (tags cm') label =
       (if label = bestLabel \<and> computeDistance (geo item) bestGeo < tol
        then defaultdict_get (tags cm) label @ landmark_tags item
        else defaultdict_get (tags cm) label)"
proof -
  define pairs where "pairs = map (\<lambda>(existingLabel, existingGeo).
      (computeDistance (geo item) existingGeo, existingLabel)) (geoLocations cm)"
  from assms have "pairs \<noteq> []" by (simp add: pairs_def)
  then obtain best where best: "py_min pairs = Inr best" "best \<in> set pairs"
      "\<forall>y \<in> set pairs. \<not> tuple_less y best"
    by (rule py_min_least)
  from best(2) obtain bestLabel bestGeo where bg: "(bestLabel, bestGeo) \<in> set (geoLocations cm)"
      and b: "best = (computeDistance (geo item) bestGeo, bestLabel)"
    by (auto simp: pairs_def)
  define cm' where "cm' = (if computeDistance (geo item) bestGeo < tol
       then foldl (append_tag bestLabel) cm [(''landmark'', landmark item), (''amenity'', amenity item)]
       else cm)"
  have least: "\<forall>(l, g) \<in> set (geoLocations cm).
        computeDistance (geo item) bestGeo \<le> computeDistance (geo item) g \<and>
        (computeDistance (geo item) g = computeDistance (geo item) bestGeo \<longrightarrow> bestLabel \<le> l)"
  proof (clarify)
    fix l g assume "(l, g) \<in> set (geoLocations cm)"
    then have "(computeDistance (geo item) g, l) \<in> set pairs" by (force simp: pairs_def)
    with best(3) b have "\<not> tuple_less (computeDistance (geo item) g, l) (computeDistance (geo item) bestGeo, bestLabel)"
      by blast
    then show "computeDistance (geo item) bestGeo \<le> computeDistance (geo item) g \<and>
        (computeDistance (geo item) g = computeDistance (geo item) bestGeo \<longrightarrow> bestLabel \<le> l)"
      unfolding tuple_less_def fst_conv snd_conv by (metis not_less order_le_less)
  qed
  have run: "addLandmark cm tol item = Inr cm'"
    using best(1) b by (simp add: addLandmark_def pairs_def [symmetric] cm'_def)
  have frame: "geoLocations cm' = geoLocations cm" "distances cm' = distances cm"
    using append_both_frame [of bestLabel cm item] by (simp_all add: cm'_def)
  have tg: "\<forall>label. defaultdict_get (tags cm') label =
       (if label = bestLabel \<and> computeDistance (geo item) bestGeo < tol
        then defaultdict_get (tags cm) label @ landmark_tags item
        else defaultdict_get (tags cm) label)"
  proof (cases "computeDistance (geo item) bestGeo < tol")
    case True
    then have "cm' = foldl (append_tag bestLabel) cm [(''landmark'', landmark item), (''amenity'', amenity item)]"
      by (simp add: cm'_def)
    with True show ?thesis by (simp only: append_both_tags) simp
  next
    case False
    then show ?thesis by (simp add: cm'_def)
  qed
  from that [OF bg least run frame tg] show ?thesis .
qed

lemma snapped_geoLocations:
  "geoLocations cm' = geoLocations cm \<Longrightarrow> snapped cm' tol item label = snapped cm tol item label"
  by (simp add: snapped_def)

lemma snapped_tags_geoLocations:
  "geoLocations cm' = geoLocations cm \<Longrightarrow>
   snapped_tags cm' tol landmarks label = snapped_tags cm tol landmarks label"
  by (simp add: snapped_tags_def snapped_geoLocations [of cm' cm])

lemma snapped_best:
  assumes bg: "(bestLabel, bestGeo) \<in> set (geoLocations cm)"
    and least: "\<forall>(l, g) \<in> set (geoLocations cm).
        computeDistance (geo item) bestGeo \<le> computeDistance (geo item) g \<and>
        (computeDistance (geo item) g = computeDistance (geo item) bestGeo \<longrightarrow> bestLabel \<le> l)"
  shows "snapped cm tol item label =
     (label = bestLabel \<and> computeDistance (geo item) bestGeo < tol)"
proof
  assume "snapped cm tol item label"
  then obtain g where g: "(label, g) \<in> set (geoLocations cm)"
    and t: "computeDistance (geo item) g < tol"
    and l: "\<And>l' g'. (l', g') \<in> set (geoLocations cm) \<Longrightarrow>
             computeDistance (geo item) g \<le> computeDistance (geo item) g' \<and>
             (computeDistance (geo item) g' = computeDistance (geo item) g \<longrightarrow> label \<le> l')"
    unfolding snapped_def by blast
  from least g have 1: "computeDistance (geo item) bestGeo \<le> computeDistance (geo item) g"
    and 2: "computeDistance (geo item) g = computeDistance (geo item) bestGeo \<longrightarrow> bestLabel \<le> label"
    by blast+
  from l [OF bg] have 3: "computeDistance (geo item) g \<le> computeDistance (geo item) bestGeo"
    and 4: "computeDistance (geo item) bestGeo = computeDistance (geo item) g \<longrightarrow> label \<le> bestLabel"
    by blast+
  from 1 3 have eq: "computeDistance (geo item) g = computeDistance (geo item) bestGeo"
    by (rule order_antisym [OF _ _, symmetric])
  with 2 4 have "bestLabel \<le> label" "label \<le> bestLabel" by simp_all
  then have "label = bestLabel" by (rule order_antisym [OF _ _, symmetric])
  with t eq show "label = bestLabel \<and> computeDistance (geo item) bestGeo < tol" by simp
next
  assume a: "label = bestLabel \<and> computeDistance (geo item) bestGeo < tol"
  have "\<forall>l' g'. (l', g') \<in> set (geoLocations cm) \<longrightarrow>
             computeDistance (geo item) bestGeo \<le> computeDistance (geo item) g' \<and>
             (computeDistance (geo item) g' = computeDistance (geo item) bestGeo \<longrightarrow> bestLabel \<le> l')"
    using least by blast
  with a bg show "snapped cm tol item label"
    unfolding snapped_def by blast
qed

lemma addLandmarks_snapped:
  "geoLocations cm \<noteq> [] \<Longrightarrow>
   \<exists>cm'. addLandmarks cm landmarks tol = Inr cm' \<and>
         geoLocations cm' = geoLocations cm \<and> distances cm' = distances cm \<and>
         (\<forall>label. defaultdict_get (tags cm') label =
                    defaultdict_get (tags cm) label @ snapped_tags cm tol landmarks label)"
proof (induction landmarks arbitrary: cm)
  case Nil
  then show ?case by (simp add: snapped_tags_def)
next
  case (Cons item landmarks)
  from Cons.prems obtain bestLabel bestGeo cm1 where
    bg: "(bestLabel, bestGeo) \<in> set (geoLocations cm)"
    and least: "\<forall>(l, g) \<in> set (geoLocations cm).
        computeDistance (geo item) bestGeo \<le> computeDistance (geo item) g \<and>
        (computeDistance (geo item) g = computeDistance (geo item) bestGeo \<longrightarrow> bestLabel \<le> l)"
    and run: "addLandmark cm tol item = Inr cm1"
    and frame: "geoLocations cm1 = geoLocations cm" "distances cm1 = distances cm"
    and tg: "\<forall>label. defaultdict_get (tags cm1) label =
       (if label = bestLabel \<and> computeDistance (geo item) bestGeo < tol
        then defaultdict_get (tags cm) label @ landmark_tags item
        else defaultdict_get (tags cm) label)"
    by (rule addLandmark_effect [of cm item tol]) blast
  have step: "defaultdict_get (tags cm1) label =
      defaultdict_get (tags cm) label @ (if snapped cm tol item label then landmark_tags item else [])"
    for label
  proof -
    let ?c = "label = bestLabel \<and> computeDistance (geo item) bestGeo < tol"
    have e: "defaultdict_get (tags cm1) label =
       (if ?c then defaultdict_get (tags cm) label @ landmark_tags item
        else defaultdict_get (tags cm) label)"
      using tg by (rule spec)
    have s: "snapped cm tol item label = ?c"
      by (rule snapped_best [OF bg least])
    show ?thesis
    proof (cases ?c)
      case True
      then have "(if ?c then defaultdict_get (tags cm) label @ landmark_tags item
        else defaultdict_get (tags cm) label) = defaultdict_get (tags cm) label @ landmark_tags item"
        by (rule if_P)
      with e have "defaultdict_get (tags cm1) label = defaultdict_get (tags cm) label @ landmark_tags item"
        by (rule trans)
      moreover from True s have "snapped cm tol item label" by blast
      then have "(if snapped cm tol item label then landmark_tags item else []) = landmark_tags item"
        by (rule if_P)
      ultimately show ?thesis by (simp only:)
    next
      case False
      then have "(if ?c then defaultdict_get (tags cm) label @ landmark_tags item
        else defaultdict_get (tags cm) label) = defaultdict_get (tags cm) label"
        by (rule if_not_P)
      with e have "defaultdict_get (tags cm1) label = defaultdict_get (tags cm) label"
        by (rule trans)
      moreover from False s have "\<not> snapped cm tol item label" by blast
      then have "(if snapped cm tol item label then landmark_tags item else []) = []"
        by (rule if_not_P)
      ultimately show ?thesis by (simp only: append_Nil2)
    qed
  qed
  from Cons.prems frame have "geoLocations cm1 \<noteq> []" by simp
  from Cons.IH [OF this] obtain cm' where
    rest: "addLandmarks cm1 landmarks tol = Inr cm'"
    and frame': "geoLocations cm' = geoLocations cm1" "distances cm' = distances cm1"
    and tags': "\<forall>label. defaultdict_get (tags cm') label =
                    defaultdict_get (tags cm1) label @ snapped_tags cm1 tol landmarks label"
    by blast
  have "defaultdict_get (tags cm') label =
      defaultdict_get (tags cm) label @ snapped_tags cm tol (item # landmarks) label" for label
  proof -
    have "snapped_tags cm1 tol landmarks label = snapped_tags cm tol landmarks label"
      using frame(1) by (rule snapped_tags_geoLocations)
    moreover have "snapped_tags cm tol (item # landmarks) label =
        (if snapped cm tol item label then landmark_tags item else []) @ snapped_tags cm tol landmarks label"
      by (simp add: snapped_tags_def)
    ultimately show ?thesis using tags' step [of label] by simp
  qed
  with run rest frame frame' show ?case by simp
qed

text \<open>
  C8, as the code has it. On a map without locations \<^verbatim>\<open>min\<close> is applied to an empty
  sequence and raises \<^verbatim>\<open>ValueError\<close>.
\<close>

theorem addLandmarks_empty_map_counterexample:
  "addLandmarks CityMap_init [gates_landmark] 250 = Inl ValueError"
  by (simp add: addLandmark_def CityMap_init_def)

text \<open>
  C8, amended. On a map with at least one location \<^verbatim>\<open>addLandmarks\<close> does not raise and
  changes the tags mapping only: the locations and the distances mapping are as before,
  and the tag list of every label is the old one followed by the tags of the landmarks
  snapped to that label, in the order of the list. Each landmark is snapped to the
  nearest location (the smallest label among equally near ones) when that location lies
  strictly within the tolerance, and to no label otherwise.
\<close>

theorem addLandmarks_changes_tags_only:
  "geoLocations cm \<noteq> [] \<Longrightarrow>
   \<exists>cm'. addLandmarks cm landmarks toleranceMeters = Inr cm' \<and>
         geoLocations cm' = geoLocations cm \<and> distances cm' = distances cm \<and>
         (\<forall>label. defaultdict_get (tags cm') label =
                    defaultdict_get (tags cm) label @ snapped_tags cm toleranceMeters landmarks label)"
  by (rule addLandmarks_snapped)

theorem addLandmarks_changes_tags_only_witness:
  "geoLocations twin_locations \<noteq> [] \<and>
   addLandmarks twin_locations [gates_landmark, cafe_landmark] 250 =
     Inr \<lparr>geoLocations = [(''b'', grid_geo 0 0), (''a'', grid_geo 0 0)],
          tags = [(''b'', [''label=b'']), (''a'', [''label=a'', ''landmark=gates'', ''amenity=food''])],
          distances = []\<rparr> \<and>
   snapped twin_locations 250 gates_landmark ''a'' \<and>
   \<not> snapped twin_locations 250 gates_landmark ''b''"
proof -
  have h: "geoLocations twin_locations \<noteq> []" by (simp add: twin_locations_eq)
  have a: "snapped twin_locations 250 gates_landmark ''a''"
    unfolding snapped_def
    by (rule exI [of _ "grid_geo 0 0"])
       (simp add: twin_locations_eq gates_landmark_def computeDistance_same)
  have b: "\<not> snapped twin_locations 250 gates_landmark ''b''"
  proof
    assume "snapped twin_locations 250 gates_landmark ''b''"
    then obtain g where g: "(''b'', g) \<in> set (geoLocations twin_locations)"
      and l: "\<forall>l' g'. (l', g') \<in> set (geoLocations twin_locations) \<longrightarrow>
               computeDistance (geo gates_landmark) g \<le> computeDistance (geo gates_landmark) g' \<and>
               (computeDistance (geo gates_landmark) g' = computeDistance (geo gates_landmark) g \<longrightarrow>
                  ''b'' \<le> l')"
      unfolding snapped_def by blast
    from g have "g = grid_geo 0 0" by (simp add: twin_locations_eq)
    moreover have "(''a'', grid_geo 0 0) \<in> set (geoLocations twin_locations)"
      by (simp add: twin_locations_eq)
    ultimately have "(''b''::string) \<le> ''a''" using l by blast
    then show False by simp
  qed
  have r: "addLandmarks twin_locations [gates_landmark, cafe_landmark] 250 =
     Inr \<lparr>geoLocations = [(''b'', grid_geo 0 0), (''a'', grid_geo 0 0)],
          tags = [(''b'', [''label=b'']), (''a'', [''label=a'', ''landmark=gates'', ''amenity=food''])],
          distances = []\<rparr>"
    by (simp add: twin_locations_eq addLandmark_def gates_landmark_def cafe_landmark_def
        computeDistance_same append_tag_def defaultdict_get_def makeTag_def tuple_less_def)
  show ?thesis
    using h a b r addLandmarks_changes_tags_only [OF h, of "[gates_landmark, cafe_landmark]" 250]
    by simp
qed

section \<open>The search engine on a shortest-path problem\<close>

lemma connected_snoc:
  "xs \<noteq> [] \<Longrightarrow>
   connected cm (xs @ [b]) =
     (connected cm xs \<and> b \<in> set (dict_keys (defaultdict_get (distances cm) (last xs))))"
proof (induction xs)
  case Nil
  then show ?case by simp
next
  case (Cons x xs)
  show ?case
  proof (cases xs)
    case Nil
    then show ?thesis by simp
  next
    case (Cons y ys)
    with Cons.IH show ?thesis by auto
  qed
qed

lemma has_link_mono: "has_link cm bp older s \<Longrightarrow> set older \<subseteq> set older' \<Longrightarrow> has_link cm bp older' s"
  unfolding has_link_def by blast

lemma has_link_cong: "map_of bp s = map_of bp' s \<Longrightarrow> has_link cm bp older s = has_link cm bp' older s"
  unfolding has_link_def by simp

lemma linked_cong:
  "(\<And>s. s \<in> set older \<Longrightarrow> map_of bp s = map_of bp' s) \<Longrightarrow>
   linked cm bp start older \<Longrightarrow> linked cm bp' start older"
proof (induction older)
  case Nil
  then show ?case by simp
next
  case (Cons x older)
  have "has_link cm bp older x = has_link cm bp' older x"
    by (rule has_link_cong) (simp add: Cons.prems(1))
  moreover have "linked cm bp' start older"
    using Cons.IH Cons.prems by simp
  ultimately show ?case using Cons.prems(2) by simp
qed

lemma follow_links_linked:
  "linked cm bp start older \<Longrightarrow> s \<in> set older \<Longrightarrow> length older \<le> Suc n \<Longrightarrow>
   \<exists>acts. follow_links n bp start s acc = Some (Inr (acts @ acc)) \<and>
          connected cm (location start # acts) \<and> last (location start # acts) = location s"
proof (induction older arbitrary: s n acc)
  case Nil
  then show ?case by simp
next
  case (Cons x older)
  from Cons.prems(1) have lk: "linked cm bp start older"
    and x: "x = start \<or> has_link cm bp older x" by simp_all
  show ?case
  proof (cases "s = start")
    case True
    then have "follow_links n bp start s acc = Some (Inr ([] @ acc))" by simp
    moreover have "connected cm (location start # [])" "last (location start # []) = location s"
      using True by simp_all
    ultimately show ?thesis by blast
  next
    case ns: False
    show ?thesis
    proof (cases "s = x")
      case True
      with ns x obtain link where link: "map_of bp s = Some link" "snd link \<in> set older"
          "edge cm (snd link) (fst link) s"
        unfolding has_link_def by blast
      from link(2) have "older \<noteq> []" by auto
      with Cons.prems(3) obtain m where n: "n = Suc m" and m: "length older \<le> Suc m"
        by (cases n; cases older) auto
      from Cons.IH [OF lk link(2) m, of "fst link # acc"] obtain acts where
        a: "follow_links m bp start (snd link) (fst link # acc) = Some (Inr (acts @ fst link # acc))"
        and c: "connected cm (location start # acts)"
        and l: "last (location start # acts) = location (snd link)"
        by blast
      have "follow_links n bp start s acc = Some (Inr ((acts @ [fst link]) @ acc))"
        using ns link(1) n a by simp
      moreover have "connected cm (location start # (acts @ [fst link]))"
        using connected_snoc [of "location start # acts" cm "fst link"] c l link(3)
        by (simp add: edge_def)
      moreover have "last (location start # (acts @ [fst link])) = location s"
        using link(3) by (simp add: edge_def)
      ultimately show ?thesis by blast
    next
      case False
      with Cons.prems(2) have "s \<in> set older" by simp
      moreover from Cons.prems(3) have "length older \<le> Suc n" by simp
      ultimately show ?thesis using Cons.IH [OF lk] by blast
    qed
  qed
qed

lemma least_entry_mem: "least_entry fr = Some e \<Longrightarrow> e \<in> set fr"
  by (induction fr arbitrary: e) (auto split: option.splits if_splits)

lemma relax_frontier_ok:
  assumes ok: "frontier_ok cm U start ex fb"
    and s': "fst (snd succ) \<in> U"
    and e: "edge cm state (fst succ) (fst (snd succ))"
    and st: "state \<in> set ex"
  shows "frontier_ok cm U start ex (relax ex state pc fb succ)"
proof -
  define new where "new = fst (snd succ)"
  define fb' where "fb' = (dict_set (fst fb) new (pc + snd (snd succ)), dict_set (snd fb) new (fst succ, state))"
  have upd: "frontier_ok cm U start ex fb'" if nex: "new \<notin> set ex"
  proof -
    have keys: "fst ` set (fst fb') = insert new (fst ` set (fst fb))"
      using dict_keys_dict_set [of "fst fb" new "pc + snd (snd succ)"]
      by (simp add: fb'_def dict_keys_def)
    have bp: "map_of (snd fb') = (map_of (snd fb))(new \<mapsto> (fst succ, state))"
      by (simp add: fb'_def map_of_dict_set)
    have "linked cm (snd fb') start ex"
    proof (rule linked_cong [of ex "snd fb"])
      fix s assume "s \<in> set ex"
      with nex have "s \<noteq> new" by blast
      then show "map_of (snd fb) s = map_of (snd fb') s" by (simp add: bp)
    next
      from ok show "linked cm (snd fb) start ex" by (simp add: frontier_ok_def)
    qed
    moreover have "fst ` set (fst fb') \<subseteq> U - set ex"
      using ok s' nex keys by (auto simp: frontier_ok_def new_def)
    moreover have "s = start \<or> has_link cm (snd fb') ex s" if "s \<in> fst ` set (fst fb')" for s
    proof (cases "s = new")
      case True
      then have "map_of (snd fb') s = Some (fst succ, state)" by (simp add: bp)
      with e st True have "has_link cm (snd fb') ex s"
        unfolding has_link_def new_def by simp
      then show ?thesis ..
    next
      case False
      with that keys have "s \<in> fst ` set (fst fb)" by blast
      with ok have "s = start \<or> has_link cm (snd fb) ex s"
        unfolding frontier_ok_def by blast
      moreover from False have "map_of (snd fb) s = map_of (snd fb') s" by (simp add: bp)
      then have "has_link cm (snd fb) ex s = has_link cm (snd fb') ex s" by (rule has_link_cong)
      ultimately show ?thesis by blast
    qed
    ultimately show ?thesis unfolding frontier_ok_def by blast
  qed
  have "relax ex state pc fb succ = fb \<or> (new \<notin> set ex \<and> relax ex state pc fb succ = fb')"
    unfolding relax_def new_def fb'_def by (simp add: Let_def split: option.splits)
  with ok upd show ?thesis by metis
qed

lemma foldl_relax_frontier_ok:
  "frontier_ok cm U start ex fb \<Longrightarrow>
   (\<And>succ. succ \<in> set successors \<Longrightarrow> fst (snd succ) \<in> U \<and> edge cm state (fst succ) (fst (snd succ))) \<Longrightarrow>
   state \<in> set ex \<Longrightarrow>
   frontier_ok cm U start ex (foldl (relax ex state pc) fb successors)"
proof (induction successors arbitrary: fb)
  case Nil
  then show ?case by simp
next
  case (Cons succ successors)
  have "frontier_ok cm U start ex (relax ex state pc fb succ)"
    using Cons.prems by (intro relax_frontier_ok) simp_all
  then show ?case using Cons.IH [of "relax ex state pc fb succ"] Cons.prems by simp
qed

lemma defaultdict_get_entries:
  "set (defaultdict_get d k) \<subseteq> set (concat (map snd d))"
proof (cases "map_of d k")
  case None
  then show ?thesis by (simp add: defaultdict_get_def)
next
  case (Some inner)
  then have "(k, inner) \<in> set d" by (rule map_of_SomeD)
  then have "set inner \<subseteq> set (concat (map snd d))" by force
  with Some show ?thesis by (simp add: defaultdict_get_def)
qed

lemma shortest_path_successor:
  assumes "succ \<in> set (ShortestPathProblem_successorsAndCosts p state)"
  shows "fst (snd succ) \<in> sp_universe p \<and> edge (cityMap p) state (fst succ) (fst (snd succ))"
proof -
  from assms obtain n d where nd: "(n, d) \<in> set (defaultdict_get (distances (cityMap p)) (location state))"
    and succ: "succ = (n, \<lparr>location = n, memory = None\<rparr>, d)"
    by (auto simp: ShortestPathProblem_successorsAndCosts_def)
  from nd have "(n, d) \<in> set (concat (map snd (distances (cityMap p))))"
    using defaultdict_get_entries [of "distances (cityMap p)" "location state"] by (rule rev_subsetD)
  then have "n \<in> fst ` set (concat (map snd (distances (cityMap p))))" by force
  then have "fst (snd succ) \<in> sp_universe p"
    unfolding sp_universe_def succ by simp
  moreover from nd have "n \<in> set (dict_keys (defaultdict_get (distances (cityMap p)) (location state)))"
    unfolding dict_keys_def by force
  then have "edge (cityMap p) state (fst succ) (fst (snd succ))"
    unfolding edge_def succ by simp
  ultimately show ?thesis ..
qed

lemma sp_universe_finite: "finite (sp_universe p)"
  by (simp add: sp_universe_def)

lemma sp_universe_card: "card (sp_universe p) < search_bound (cityMap p)"
proof -
  let ?es = "concat (map snd (distances (cityMap p)))"
  let ?A = "(\<lambda>n. \<lparr>location = n, memory = None\<rparr>) ` fst ` set ?es"
  have "card ?A \<le> card (fst ` set ?es)"
    by (rule card_image_le) simp
  also have "\<dots> \<le> card (set ?es)"
    by (rule card_image_le) simp
  also have "\<dots> \<le> length ?es" by (rule card_length)
  finally have "card ?A \<le> length ?es" .
  moreover have "card (insert (ShortestPathProblem_startState p) ?A) \<le> Suc (card ?A)"
    by (simp add: card_insert_if)
  ultimately show ?thesis
    unfolding sp_universe_def search_bound_def by linarith
qed

lemma ucs_loop_shortest_path:
  assumes "frontier_ok (cityMap p) (sp_universe p) (ShortestPathProblem_startState p) ex (fr, bp)"
    and "card (sp_universe p - set ex) < n"
  shows "\<exists>r. ucs_loop n (ShortestPathProblem_startState p)
               (\<lambda>s. Inr (ShortestPathProblem_isEnd p s))
               (\<lambda>s. Inr (ShortestPathProblem_successorsAndCosts p s)) fr ex bp costs = Some (Inr r) \<and>
             found_path_ok p r"
  using assms
proof (induction n arbitrary: fr ex bp costs)
  case 0
  then show ?case by simp
next
  case (Suc m)
  let ?cm = "cityMap p" and ?U = "sp_universe p" and ?start = "ShortestPathProblem_startState p"
  let ?goal = "\<lambda>s. Inr (ShortestPathProblem_isEnd p s) :: error + bool"
  let ?succs = "\<lambda>s. Inr (ShortestPathProblem_successorsAndCosts p s) :: error + (string \<times> State \<times> real) list"
  note ok = Suc.prems(1)
  show ?case
  proof (cases "least_entry fr")
    case None
    then have "ucs_loop (Suc m) ?start ?goal ?succs fr ex bp costs =
        Some (Inr \<lparr>actions = [], pathCost = None, pastCosts = costs\<rparr>)"
      by simp
    then show ?thesis by (simp add: found_path_ok_def)
  next
    case (Some e)
    obtain state pc where e: "e = (state, pc)" by (cases e)
    from Some e have "(state, pc) \<in> set fr" using least_entry_mem by blast
    then have key: "state \<in> fst ` set fr" by force
    with ok have inU: "state \<in> ?U" and nex: "state \<notin> set ex"
      and lk: "linked ?cm bp ?start ex"
      and link: "state = ?start \<or> has_link ?cm bp ex state"
      unfolding frontier_ok_def by auto
    from lk link have lk': "linked ?cm bp ?start (state # ex)" by simp
    show ?thesis
    proof (cases "ShortestPathProblem_isEnd p state")
      case True
      from follow_links_linked [OF lk', of state "length ex" "[]"]
      obtain acts where f: "follow_links (length ex) bp ?start state [] = Some (Inr acts)"
        and c: "connected ?cm (location ?start # acts)"
        and l: "last (location ?start # acts) = location state"
        by auto
      have "ucs_loop (Suc m) ?start ?goal ?succs fr ex bp costs =
          Some (Inr \<lparr>actions = acts, pathCost = Some pc, pastCosts = dict_set costs state pc\<rparr>)"
        using Some e True f by simp
      moreover have "found_path_ok p \<lparr>actions = acts, pathCost = Some pc, pastCosts = dict_set costs state pc\<rparr>"
        using c l True
        by (simp add: found_path_ok_def ShortestPathProblem_startState_def ShortestPathProblem_isEnd_def)
      ultimately show ?thesis by blast
    next
      case False
      define fr0 where "fr0 = filter (\<lambda>entry. fst entry \<noteq> state) fr"
      define fb where "fb = foldl (relax (state # ex) state pc) (fr0, bp)
          (ShortestPathProblem_successorsAndCosts p state)"
      have keys0: "fst ` set fr0 \<subseteq> fst ` set fr - {state}"
        unfolding fr0_def by auto
      have "frontier_ok ?cm ?U ?start (state # ex) (fr0, bp)"
        unfolding frontier_ok_def fst_conv snd_conv
      proof (intro conjI ballI)
        from ok keys0 show "fst ` set fr0 \<subseteq> ?U - set (state # ex)"
          unfolding frontier_ok_def by auto
        from lk' show "linked ?cm bp ?start (state # ex)" .
      next
        fix s assume "s \<in> fst ` set fr0"
        with keys0 have "s \<in> fst ` set fr" by blast
        with ok have "s = ?start \<or> has_link ?cm bp ex s"
          unfolding frontier_ok_def by auto
        then show "s = ?start \<or> has_link ?cm bp (state # ex) s"
          using has_link_mono [of ?cm bp ex s "state # ex"] by auto
      qed
      then have "frontier_ok ?cm ?U ?start (state # ex) fb"
        unfolding fb_def
        by (rule foldl_relax_frontier_ok) (simp_all add: shortest_path_successor)
      then have ok': "frontier_ok ?cm ?U ?start (state # ex) (fst fb, snd fb)" by simp
      have "?U - set (state # ex) = (?U - set ex) - {state}" by auto
      moreover have "state \<in> ?U - set ex" using inU nex by simp
      moreover have "finite (?U - set ex)" using sp_universe_finite by simp
      ultimately have "card (?U - set (state # ex)) < card (?U - set ex)"
        by (metis card_Diff1_less)
      with Suc.prems(2) have "card (?U - set (state # ex)) < m" by simp
      from Suc.IH [OF ok' this, of "dict_set costs state pc"]
      obtain r where "ucs_loop m ?start ?goal ?succs (fst fb) (state # ex) (snd fb)
            (dict_set costs state pc) = Some (Inr r)" and "found_path_ok p r"
        by blast
      moreover have "ucs_loop (Suc m) ?start ?goal ?succs fr ex bp costs =
          ucs_loop m ?start ?goal ?succs (fst fb) (state # ex) (snd fb) (dict_set costs state pc)"
        using Some e False by (simp add: fb_def fr0_def Let_def)
      ultimately show ?thesis by simp
    qed
  qed
qed

lemma solve_shortest_path:
  "\<exists>r. UniformCostSearch_solve (search_bound (cityMap p) + k) (ShortestPathProblem_problem p) = Some (Inr r) \<and>
       found_path_ok p r"
proof -
  have "frontier_ok (cityMap p) (sp_universe p) (ShortestPathProblem_startState p) []
      ([(ShortestPathProblem_startState p, 0)], [])"
    by (simp add: frontier_ok_def sp_universe_def)
  moreover have "card (sp_universe p - set []) < search_bound (cityMap p) + k"
    using sp_universe_card [of p] by simp
  ultimately show ?thesis
    unfolding UniformCostSearch_solve_def ShortestPathProblem_problem_def
    using ucs_loop_shortest_path [of p "[]" "[(ShortestPathProblem_startState p, 0)]" "[]"
        "search_bound (cityMap p) + k" "[]"]
    by simp
qed

section \<open>The reduction under the zero heuristic\<close>

lemma aStarReduction_zero_successors:
  "successorsAndCosts (aStarReduction (ShortestPathProblem_problem p) ZeroHeuristic) =
   successorsAndCosts (ShortestPathProblem_problem p)"
proof -
  have "aStarReduction_successor ZeroHeuristic =
      (\<lambda>nd. Inr (case nd of (next_location, distance) \<Rightarrow>
                   (next_location, \<lparr>location = next_location, memory = None\<rparr>, distance)))"
    by (simp add: aStarReduction_successor_def ZeroHeuristic_def fun_eq_iff case_prod_beta)
  then have "collect (aStarReduction_successor ZeroHeuristic) xs =
      Inr (map (\<lambda>(next_location, distance).
                  (next_location, \<lparr>location = next_location, memory = None\<rparr>, distance)) xs)" for xs
    by (simp only: collect_total)
  then show ?thesis
    by (simp add: aStarReduction_def ShortestPathProblem_problem_def
        ShortestPathProblem_successorsAndCosts_def fun_eq_iff)
qed


lemma found_path_checkValid:
  "found_path_ok p r \<Longrightarrow>
   pathCost r = None \<or>
   checkValid (startLocation p # actions r) (cityMap p) (startLocation p) (endTag p) [] = Inr True"
  by (auto simp: found_path_ok_def checkValid_def)

text \<open>
  C2. For every shortest-path problem, the search on the A* reduction under the zero
  heuristic gives the result of the search on the problem itself, for every amount of
  fuel: the same cost, the same actions, the same past costs. With fuel beyond
  \<open>search_bound\<close> the search ends without an exception, and when it reports a cost the
  path of its actions, from the start location, passes \<^verbatim>\<open>checkValid\<close> for the underlying
  problem.
\<close>

theorem aStarReduction_zero_same_result:
  "UniformCostSearch_solve fuel (aStarReduction (ShortestPathProblem_problem p) ZeroHeuristic) =
     UniformCostSearch_solve fuel (ShortestPathProblem_problem p) \<and>
   (\<exists>r. UniformCostSearch_solve (search_bound (cityMap p) + k)
           (aStarReduction (ShortestPathProblem_problem p) ZeroHeuristic) = Some (Inr r) \<and>
        (pathCost r = None \<or>
         checkValid (startLocation p # actions r) (cityMap p) (startLocation p) (endTag p) [] = Inr True))"
proof -
  have same: "UniformCostSearch_solve n (aStarReduction (ShortestPathProblem_problem p) ZeroHeuristic) =
     UniformCostSearch_solve n (ShortestPathProblem_problem p)" for n
    unfolding UniformCostSearch_solve_def aStarReduction_zero_successors
    by (simp add: aStarReduction_def)
  from solve_shortest_path [of p k] obtain r where
    "UniformCostSearch_solve (search_bound (cityMap p) + k) (ShortestPathProblem_problem p) = Some (Inr r)"
    and "found_path_ok p r" by blast
  with same found_path_checkValid [of p r] show ?thesis by auto
qed

theorem aStarReduction_zero_same_result_witness:
  "UniformCostSearch_solve 4 (aStarReduction (ShortestPathProblem_problem sp_1x2) ZeroHeuristic) =
     Some (Inr \<lparr>actions = [''0,1''], pathCost = Some 1,
                pastCosts = [(\<lparr>location = ''0,0'', memory = None\<rparr>, 0),
                             (\<lparr>location = ''0,1'', memory = None\<rparr>, 1)]\<rparr>) \<and>
   checkValid [''0,0'', ''0,1''] grid_1x2 ''0,0'' ''label=0,1'' [] = Inr True"
proof -
  have "UniformCostSearch_solve 4 (ShortestPathProblem_problem sp_1x2) =
     Some (Inr \<lparr>actions = [''0,1''], pathCost = Some 1,
                pastCosts = [(\<lparr>location = ''0,0'', memory = None\<rparr>, 0),
                             (\<lparr>location = ''0,1'', memory = None\<rparr>, 1)]\<rparr>)"
    by (simp add: UniformCostSearch_solve_def ShortestPathProblem_problem_def sp_1x2_def
        ShortestPathProblem_startState_def ShortestPathProblem_isEnd_def
        ShortestPathProblem_successorsAndCosts_def grid_1x2_eq defaultdict_get_def relax_def
        numeral_eq_Suc Let_def)
  moreover have "checkValid [''0,0'', ''0,1''] grid_1x2 ''0,0'' ''label=0,1'' [] = Inr True"
    by (simp add: checkValid_def grid_1x2_eq defaultdict_get_def dict_keys_def)
  ultimately show ?thesis
    using aStarReduction_zero_same_result [of 4 sp_1x2 0] by simp
qed

end
